theory Spec2Isabelle
  imports Complex_Main
begin

section \<open>Data model (types/enums.ts, types/task.ts, types/chat.ts, types/api.ts)\<close>

datatype Priority = LOW | MEDIUM | HIGH | URGENT

datatype TaskStatus = PENDING | IN_PROGRESS | COMPLETED

datatype MessageRole = USER | ASSISTANT

text \<open>
  The interface \<open>Task\<close>. Optional members (\<open>description?\<close>, \<open>due_date?\<close>, ...) are
  options. The member \<open>id\<close> is called \<open>task_id\<close>, since \<open>id\<close> is the identity function
  of HOL.
\<close>

record Task =
  task_id :: int
  title :: string
  description :: "string option"
  due_date :: "string option"
  priority :: Priority
  category :: "string option"
  status :: TaskStatus
  created_at :: string
  updated_at :: string
  calendar_event_id :: "string option"
  ai_generated :: bool

text \<open>
  The interface \<open>TaskUpdate\<close>: every member is optional. \<open>None\<close> is a member that is
  absent from the object. For \<open>description\<close>, \<open>due_date\<close> and \<open>category\<close>, which a
  \<open>Task\<close> may lack, a member that is present holds \<open>undefined\<close> (\<open>Some None\<close>, as in
  \<open>{ description: editDescription.trim() || undefined }\<close>) or a string. For \<open>title\<close>,
  \<open>priority\<close> and \<open>status\<close> a member that is present holds a value: with \<open>undefined\<close>
  there the spread would give an object that is no \<open>Task\<close>.
\<close>

record TaskUpdate =
  u_title :: "string option"
  u_description :: "string option option"
  u_due_date :: "string option option"
  u_priority :: "Priority option"
  u_category :: "string option option"
  u_status :: "TaskStatus option"

record TaskFilters =
  f_status :: "TaskStatus option"
  f_priority :: "Priority option"
  f_category :: "string option"
  f_due_date_from :: "string option"
  f_due_date_to :: "string option"
  f_search :: "string option"

text \<open>
  \<open>GeneratedTask\<close>; its members \<open>title\<close> and \<open>description\<close> carry the prefix \<open>g_\<close>. The
  score is a number between 0 and 1; nothing below computes with it.
\<close>

record GeneratedTask =
  g_title :: string
  g_description :: string
  suggested_due_date :: "string option"
  suggested_priority :: Priority
  suggested_category :: string
  confidence_score :: real

record ChatMessage =
  msg_id :: int
  content :: string
  role :: MessageRole
  msg_timestamp :: string
  generated_tasks :: "GeneratedTask list option"

text \<open>
  \<open>PaginatedResponse<T>\<close>. The members \<open>total\<close>, \<open>page\<close>, \<open>size\<close>, \<open>pages\<close> carry the
  suffix \<open>_r\<close> (\<open>total\<close> and \<open>size\<close> are constants of HOL).
\<close>

record 'a PaginatedResponse =
  items :: "'a list"
  total_r :: int
  page_r :: int
  size_r :: int
  pages_r :: int

text \<open>
  The object spread \<open>{ ...task, ...updates }\<close>: every member present in \<open>updates\<close>
  replaces the member of \<open>task\<close>, also when it holds \<open>undefined\<close>; every other member of
  \<open>task\<close> is kept.
\<close>

definition spreadUpdates :: "Task \<Rightarrow> TaskUpdate \<Rightarrow> Task" where
  "spreadUpdates task updates =
     task\<lparr> title := (case u_title updates of None \<Rightarrow> title task | Some v \<Rightarrow> v),
           description := (case u_description updates of None \<Rightarrow> description task | Some v \<Rightarrow> v),
           due_date := (case u_due_date updates of None \<Rightarrow> due_date task | Some v \<Rightarrow> v),
           priority := (case u_priority updates of None \<Rightarrow> priority task | Some v \<Rightarrow> v),
           category := (case u_category updates of None \<Rightarrow> category task | Some v \<Rightarrow> v),
           status := (case u_status updates of None \<Rightarrow> status task | Some v \<Rightarrow> v) \<rparr>"

text \<open>
  \<open>Partial<Task>\<close>, the type of the updates of \<open>updateCachedTask\<close>: every member of
  \<open>Task\<close>, optional, with \<open>None\<close> and \<open>Some None\<close> as in \<open>TaskUpdate\<close>; and the spread
  \<open>{ ...task, ...updates }\<close> with it.
\<close>

record PartialTask =
  pt_id :: "int option"
  pt_title :: "string option"
  pt_description :: "string option option"
  pt_due_date :: "string option option"
  pt_priority :: "Priority option"
  pt_category :: "string option option"
  pt_status :: "TaskStatus option"
  pt_created_at :: "string option"
  pt_updated_at :: "string option"
  pt_calendar_event_id :: "string option option"
  pt_ai_generated :: "bool option"

definition spreadPartial :: "Task \<Rightarrow> PartialTask \<Rightarrow> Task" where
  "spreadPartial task updates =
     \<lparr> task_id = (case pt_id updates of None \<Rightarrow> task_id task | Some v \<Rightarrow> v),
       title = (case pt_title updates of None \<Rightarrow> title task | Some v \<Rightarrow> v),
       description =
         (case pt_description updates of None \<Rightarrow> description task | Some v \<Rightarrow> v),
       due_date = (case pt_due_date updates of None \<Rightarrow> due_date task | Some v \<Rightarrow> v),
       priority = (case pt_priority updates of None \<Rightarrow> priority task | Some v \<Rightarrow> v),
       category = (case pt_category updates of None \<Rightarrow> category task | Some v \<Rightarrow> v),
       status = (case pt_status updates of None \<Rightarrow> status task | Some v \<Rightarrow> v),
       created_at = (case pt_created_at updates of None \<Rightarrow> created_at task | Some v \<Rightarrow> v),
       updated_at = (case pt_updated_at updates of None \<Rightarrow> updated_at task | Some v \<Rightarrow> v),
       calendar_event_id =
         (case pt_calendar_event_id updates of
            None \<Rightarrow> calendar_event_id task
          | Some v \<Rightarrow> v),
       ai_generated =
         (case pt_ai_generated updates of None \<Rightarrow> ai_generated task | Some v \<Rightarrow> v) \<rparr>"

section \<open>The offline store (stores/useOfflineStore.ts)\<close>

datatype OperationType = CREATE_TASK | UPDATE_TASK | DELETE_TASK | COMPLETE_TASK

text \<open>
  \<open>OfflineOperation\<close>; the payload \<open>data: any\<close> is a type parameter. The members \<open>id\<close>,
  \<open>type\<close> and \<open>data\<close> are called \<open>op_id\<close>, \<open>op_type\<close> and \<open>op_data\<close>.
\<close>

record 'd OfflineOperation =
  op_id :: string
  op_type :: OperationType
  op_data :: 'd
  timestamp :: nat
  retryCount :: nat

record 'd OfflineState =
  isOnline :: bool
  pendingOperations :: "'d OfflineOperation list"
  cachedTasks :: "Task list"
  cachedChatMessages :: "ChatMessage list"
  lastSyncTimestamp :: nat

text \<open>
  The initial state of the store. \<open>navigator.onLine\<close> is the connectivity signal of the
  environment, read when the store is created.
\<close>

definition initialState :: "bool \<Rightarrow> 'd OfflineState" where
  "initialState navigator_onLine =
     \<lparr> isOnline = navigator_onLine, pendingOperations = [], cachedTasks = [],
       cachedChatMessages = [], lastSyncTimestamp = 0 \<rparr>"

definition setOnlineStatus :: "bool \<Rightarrow> 'd OfflineState \<Rightarrow> 'd OfflineState" where
  "setOnlineStatus online state = state\<lparr> isOnline := online \<rparr>"

text \<open>\<open>Number.prototype.toString()\<close> on a natural number: its decimal digits.\<close>

definition digitChar :: "nat \<Rightarrow> char" where
  "digitChar d = char_of (48 + d)"

function toString :: "nat \<Rightarrow> string" where
  "toString n = (if n < 10 then [digitChar n] else toString (n div 10) @ [digitChar (n mod 10)])"
  by pat_completeness auto
termination
  by (relation "measure (\<lambda>n. n)") auto

text \<open>
  \<open>addPendingOperation\<close>. The object literal reads the clock twice: \<open>nowId\<close> is the
  value of \<open>Date.now()\<close> in the id and \<open>nowTs\<close> its value in the timestamp; \<open>rnd\<close> is the
  string \<open>Math.random().toString(36).substr(2, 9)\<close>. All three are supplied by the
  environment.
\<close>

definition addPendingOperation ::
  "nat \<Rightarrow> string \<Rightarrow> nat \<Rightarrow> OperationType \<Rightarrow> 'd \<Rightarrow> 'd OfflineState \<Rightarrow> 'd OfflineState" where
  "addPendingOperation nowId rnd nowTs type dat state =
     state\<lparr> pendingOperations :=
       pendingOperations state @
         [\<lparr> op_id = toString nowId @ rnd, op_type = type, op_data = dat,
            timestamp = nowTs, retryCount = 0 \<rparr>] \<rparr>"

definition removePendingOperation :: "string \<Rightarrow> 'd OfflineState \<Rightarrow> 'd OfflineState" where
  "removePendingOperation i state =
     state\<lparr> pendingOperations := filter (\<lambda>op. op_id op \<noteq> i) (pendingOperations state) \<rparr>"

definition incrementRetryCount :: "string \<Rightarrow> 'd OfflineState \<Rightarrow> 'd OfflineState" where
  "incrementRetryCount i state =
     state\<lparr> pendingOperations :=
       map (\<lambda>op. if op_id op = i then op\<lparr> retryCount := retryCount op + 1 \<rparr> else op)
         (pendingOperations state) \<rparr>"

definition clearPendingOperations :: "'d OfflineState \<Rightarrow> 'd OfflineState" where
  "clearPendingOperations state = state\<lparr> pendingOperations := [] \<rparr>"

definition setCachedTasks :: "Task list \<Rightarrow> 'd OfflineState \<Rightarrow> 'd OfflineState" where
  "setCachedTasks tasks state = state\<lparr> cachedTasks := tasks \<rparr>"

definition addCachedTask :: "Task \<Rightarrow> 'd OfflineState \<Rightarrow> 'd OfflineState" where
  "addCachedTask task state = state\<lparr> cachedTasks := cachedTasks state @ [task] \<rparr>"

definition updateCachedTask :: "int \<Rightarrow> PartialTask \<Rightarrow> 'd OfflineState \<Rightarrow> 'd OfflineState" where
  "updateCachedTask i updates state =
     state\<lparr> cachedTasks :=
       map (\<lambda>task. if task_id task = i then spreadPartial task updates else task)
         (cachedTasks state) \<rparr>"

definition removeCachedTask :: "int \<Rightarrow> 'd OfflineState \<Rightarrow> 'd OfflineState" where
  "removeCachedTask i state =
     state\<lparr> cachedTasks := filter (\<lambda>task. task_id task \<noteq> i) (cachedTasks state) \<rparr>"

definition setCachedChatMessages :: "ChatMessage list \<Rightarrow> 'd OfflineState \<Rightarrow> 'd OfflineState" where
  "setCachedChatMessages messages state = state\<lparr> cachedChatMessages := messages \<rparr>"

definition addCachedChatMessage :: "ChatMessage \<Rightarrow> 'd OfflineState \<Rightarrow> 'd OfflineState" where
  "addCachedChatMessage message state =
     state\<lparr> cachedChatMessages := message # cachedChatMessages state \<rparr>"

definition setLastSyncTimestamp :: "nat \<Rightarrow> 'd OfflineState \<Rightarrow> 'd OfflineState" where
  "setLastSyncTimestamp t state = state\<lparr> lastSyncTimestamp := t \<rparr>"

subsection \<open>The hook \<open>useOfflineOperations\<close>\<close>

text \<open>
  The hook destructures \<open>isOnline\<close> and \<open>pendingOperations\<close> from the store when the
  component renders; its functions read these two values and call the store's actions,
  which act on the store as it is at the call. \<open>hook\<close> is the state the hook rendered
  with, \<open>state\<close> the store at the call.

  \<open>queueOperation\<close> returns the new store and the boolean the source returns.
\<close>

definition queueOperation ::
  "'d OfflineState \<Rightarrow> nat \<Rightarrow> string \<Rightarrow> nat \<Rightarrow> OperationType \<Rightarrow> 'd \<Rightarrow> 'd OfflineState
     \<Rightarrow> 'd OfflineState \<times> bool" where
  "queueOperation hook nowId rnd nowTs type dat state =
     (if \<not> isOnline hook then (addPendingOperation nowId rnd nowTs type dat state, True)
      else (state, False))"

text \<open>
  \<open>processOperation\<close> as it stands in the source: every API call is commented out, each
  of the four cases ends in \<open>break\<close>, and the \<open>default\<close> case cannot be reached from a
  well-typed operation. \<open>True\<close> is a promise that resolves, \<open>False\<close> one that rejects.
\<close>

fun processOperation :: "'d OfflineOperation \<Rightarrow> bool" where
  "processOperation operation =
     (case op_type operation of
        CREATE_TASK \<Rightarrow> True
      | UPDATE_TASK \<Rightarrow> True
      | DELETE_TASK \<Rightarrow> True
      | COMPLETE_TASK \<Rightarrow> True)"

text \<open>
  The body of the \<open>for\<close> loop of \<open>processPendingOperations\<close>, for one operation of the
  list the hook rendered with. \<open>dispatch\<close> stands for \<open>await processOperation(operation)\<close>
  and says whether the call resolved, so that the \<open>catch\<close> branch is covered too.
\<close>

definition drainStep ::
  "('d OfflineOperation \<Rightarrow> bool) \<Rightarrow> 'd OfflineOperation \<Rightarrow> 'd OfflineState \<Rightarrow> 'd OfflineState" where
  "drainStep dispatch operation state =
     (if dispatch operation then removePendingOperation (op_id operation) state
      else if retryCount operation \<ge> 3 then removePendingOperation (op_id operation) state
      else incrementRetryCount (op_id operation) state)"

text \<open>
  The loop. Besides the store it returns a log: one entry for each dispatched operation,
  in the order of the dispatches, with the queue of the store at the moment of the
  dispatch.
\<close>

fun drainLoop ::
  "('d OfflineOperation \<Rightarrow> bool) \<Rightarrow> 'd OfflineOperation list \<Rightarrow> 'd OfflineState
     \<Rightarrow> 'd OfflineState \<times> ('d OfflineOperation \<times> 'd OfflineOperation list) list" where
  "drainLoop dispatch [] state = (state, [])"
| "drainLoop dispatch (operation # rest) state =
     (case drainLoop dispatch rest (drainStep dispatch operation state) of
        (state', entries) \<Rightarrow> (state', (operation, pendingOperations state) # entries))"

definition processPendingOperations ::
  "('d OfflineOperation \<Rightarrow> bool) \<Rightarrow> 'd OfflineState \<Rightarrow> 'd OfflineState
     \<Rightarrow> 'd OfflineState \<times> ('d OfflineOperation \<times> 'd OfflineOperation list) list" where
  "processPendingOperations dispatch hook state =
     (if \<not> isOnline hook \<or> pendingOperations hook = [] then (state, [])
      else drainLoop dispatch (pendingOperations hook) state)"

text \<open>
  Successive runs of \<open>processPendingOperations\<close>, one after the other: each run has its
  dispatcher and the state its hook rendered with, which may be older than the store.
\<close>

fun runs ::
  "(('d OfflineOperation \<Rightarrow> bool) \<times> 'd OfflineState) list \<Rightarrow> 'd OfflineState
     \<Rightarrow> 'd OfflineState" where
  "runs [] state = state"
| "runs ((dispatch, hook) # rest) state =
     runs rest (fst (processPendingOperations dispatch hook state))"

text \<open>
  A hook has rendered with the store when the two values it destructured are those of
  the store; in a sequence of runs the component has re-rendered before each run when
  this holds of every hook and the store at its run.
\<close>

definition renderedWith :: "'d OfflineState \<Rightarrow> 'd OfflineState \<Rightarrow> bool" where
  "renderedWith hook state =
     (isOnline hook = isOnline state \<and> pendingOperations hook = pendingOperations state)"

fun renderedBeforeEach ::
  "(('d OfflineOperation \<Rightarrow> bool) \<times> 'd OfflineState) list \<Rightarrow> 'd OfflineState \<Rightarrow> bool" where
  "renderedBeforeEach [] state = True"
| "renderedBeforeEach ((dispatch, hook) # rest) state =
     (renderedWith hook state \<and>
      renderedBeforeEach rest (fst (processPendingOperations dispatch hook state)))"

text \<open>The handlers of the \<open>online\<close> and \<open>offline\<close> events in \<open>useOnlineStatus\<close>.\<close>

definition handleOnline ::
  "('d OfflineOperation \<Rightarrow> bool) \<Rightarrow> 'd OfflineState \<Rightarrow> 'd OfflineState \<Rightarrow> 'd OfflineState" where
  "handleOnline dispatch hook state =
     fst (processPendingOperations dispatch hook (setOnlineStatus True state))"

definition handleOffline :: "'d OfflineState \<Rightarrow> 'd OfflineState" where
  "handleOffline state = setOnlineStatus False state"

subsection \<open>Persistence (the \<open>persist\<close> middleware)\<close>

text \<open>The object that \<open>partialize\<close> builds: what is written to storage.\<close>

record 'd PersistedState =
  p_pendingOperations :: "'d OfflineOperation list"
  p_cachedTasks :: "Task list"
  p_cachedChatMessages :: "ChatMessage list"
  p_lastSyncTimestamp :: nat

definition partialize :: "'d OfflineState \<Rightarrow> 'd PersistedState" where
  "partialize state =
     \<lparr> p_pendingOperations = pendingOperations state,
       p_cachedTasks = cachedTasks state,
       p_cachedChatMessages = cachedChatMessages state,
       p_lastSyncTimestamp = lastSyncTimestamp state \<rparr>"

text \<open>
  Rehydration when the store is created again. The source passes no \<open>merge\<close> option, so
  the middleware's own merge applies, the shallow spread
  \<open>{ ...currentState, ...persistedState }\<close> of the stored object over the initial state;
  with nothing stored the initial state stays.
\<close>

definition rehydrate :: "'d PersistedState option \<Rightarrow> 'd OfflineState \<Rightarrow> 'd OfflineState" where
  "rehydrate stored currentState =
     (case stored of
        None \<Rightarrow> currentState
      | Some persistedState \<Rightarrow>
          currentState\<lparr> pendingOperations := p_pendingOperations persistedState,
                        cachedTasks := p_cachedTasks persistedState,
                        cachedChatMessages := p_cachedChatMessages persistedState,
                        lastSyncTimestamp := p_lastSyncTimestamp persistedState \<rparr>)"

definition reload :: "'d PersistedState option \<Rightarrow> bool \<Rightarrow> 'd OfflineState" where
  "reload stored navigator_onLine = rehydrate stored (initialState navigator_onLine)"

section \<open>The task handlers of the application component (App.tsx)\<close>

text \<open>
  \<open>handleToggleComplete\<close> is \<open>setTasks(prev => prev.map(...))\<close>: a function on the task
  list. \<open>stamp\<close> is the string \<open>new Date().toISOString()\<close>.
\<close>

definition handleToggleComplete :: "string \<Rightarrow> int \<Rightarrow> Task list \<Rightarrow> Task list" where
  "handleToggleComplete stamp i prev =
     map (\<lambda>task.
            if task_id task = i
            then task\<lparr> status := (if status task = COMPLETED then PENDING else COMPLETED),
                       updated_at := stamp \<rparr>
            else task) prev"

definition handleUpdateTask :: "string \<Rightarrow> int \<Rightarrow> TaskUpdate \<Rightarrow> Task list \<Rightarrow> Task list" where
  "handleUpdateTask stamp i updates prev =
     map (\<lambda>task.
            if task_id task = i then (spreadUpdates task updates)\<lparr> updated_at := stamp \<rparr>
            else task) prev"

definition handleDeleteTask :: "int \<Rightarrow> Task list \<Rightarrow> Task list" where
  "handleDeleteTask i prev = filter (\<lambda>task. task_id task \<noteq> i) prev"

section \<open>The query cache the hooks act on\<close>

text \<open>
  The hooks call the query client of the library \<open>@tanstack/react-query\<close>, which is not
  code of this repository. Its cache is modelled as far as the hooks use it: a query has
  its data (\<open>None\<close> is \<open>undefined\<close>), the flag \<open>isInvalidated\<close> and the time of the last
  write of the data; a cache maps query keys to queries.
\<close>

record 'a Query =
  data :: "'a option"
  isInvalidated :: bool
  dataUpdatedAt :: nat

type_synonym ('k, 'a) QueryCache = "'k \<Rightarrow> 'a Query option"

definition getQueryData :: "('k, 'a) QueryCache \<Rightarrow> 'k \<Rightarrow> 'a option" where
  "getQueryData cache queryKey =
     (case cache queryKey of None \<Rightarrow> None | Some query \<Rightarrow> data query)"

text \<open>
  \<open>setQueryData(queryKey, updater)\<close>: the updater is applied to the data of the query (a
  plain value is the constant updater); a result \<open>undefined\<close> changes nothing, any other
  result is stored (the query is created when the key has none) and makes the query
  valid again. \<open>now\<close> is the time of the call.
\<close>

definition setQueryData ::
  "nat \<Rightarrow> 'k \<Rightarrow> ('a option \<Rightarrow> 'a option) \<Rightarrow> ('k, 'a) QueryCache \<Rightarrow> ('k, 'a) QueryCache" where
  "setQueryData now queryKey updater cache =
     (case updater (getQueryData cache queryKey) of
        None \<Rightarrow> cache
      | Some d \<Rightarrow>
          cache(queryKey \<mapsto> \<lparr> data = Some d, isInvalidated = False, dataUpdatedAt = now \<rparr>))"

text \<open>
  \<open>setQueriesData({ queryKey: prefix }, updater)\<close> calls \<open>setQueryData\<close> for every query of
  the cache whose key starts with the prefix. The caches below hold the queries of one
  prefix each, so every query of the cache matches.
\<close>

definition setQueriesData ::
  "nat \<Rightarrow> ('a option \<Rightarrow> 'a option) \<Rightarrow> ('k, 'a) QueryCache \<Rightarrow> ('k, 'a) QueryCache" where
  "setQueriesData now updater cache =
     (\<lambda>queryKey.
        case cache queryKey of
          None \<Rightarrow> None
        | Some query \<Rightarrow>
            (case updater (data query) of
               None \<Rightarrow> Some query
             | Some d \<Rightarrow> Some \<lparr> data = Some d, isInvalidated = False, dataUpdatedAt = now \<rparr>))"

text \<open>
  \<open>invalidateQueries\<close> marks the matching queries as invalidated; it does not touch
  their data (the queries that are mounted are fetched again afterwards, and a fetch that
  succeeds writes what the server returns). \<open>invalidateQuery\<close> is the call with a
  complete key, \<open>invalidateQueries\<close> the call with the prefix of the cache.
\<close>

definition invalidateQuery :: "'k \<Rightarrow> ('k, 'a) QueryCache \<Rightarrow> ('k, 'a) QueryCache" where
  "invalidateQuery queryKey cache =
     (case cache queryKey of
        None \<Rightarrow> cache
      | Some query \<Rightarrow> cache(queryKey \<mapsto> query\<lparr> isInvalidated := True \<rparr>))"

definition invalidateQueries :: "('k, 'a) QueryCache \<Rightarrow> ('k, 'a) QueryCache" where
  "invalidateQueries cache =
     (\<lambda>queryKey.
        case cache queryKey of
          None \<Rightarrow> None
        | Some query \<Rightarrow> Some (query\<lparr> isInvalidated := True \<rparr>))"

definition removeQueries :: "'k \<Rightarrow> ('k, 'a) QueryCache \<Rightarrow> ('k, 'a) QueryCache" where
  "removeQueries queryKey cache = cache(queryKey := None)"

subsection \<open>Staleness\<close>

text \<open>
  The options a hook passes to \<open>useQuery\<close>: \<open>staleTime\<close> and \<open>gcTime\<close> in milliseconds
  (\<open>gcTime\<close> is optional), and \<open>enabled\<close>.
\<close>

record QueryOptions =
  staleTime :: nat
  gcTime :: "nat option"
  enabled :: bool

definition useTasks_options :: QueryOptions where
  "useTasks_options =
     \<lparr> staleTime = 5 * 60 * 1000, gcTime = Some (10 * 60 * 1000), enabled = True \<rparr>"

definition useTask_options :: "int \<Rightarrow> QueryOptions" where
  "useTask_options i = \<lparr> staleTime = 5 * 60 * 1000, gcTime = None, enabled = (i \<noteq> 0) \<rparr>"

definition useChatMessages_options :: QueryOptions where
  "useChatMessages_options =
     \<lparr> staleTime = 2 * 60 * 1000, gcTime = Some (10 * 60 * 1000), enabled = True \<rparr>"

text \<open>
  The library's test of staleness: a query is stale when it has no data, when it is
  invalidated, or when \<open>dataUpdatedAt + staleTime - now\<close> is not positive.
\<close>

definition isStale :: "nat \<Rightarrow> nat \<Rightarrow> 'a Query \<Rightarrow> bool" where
  "isStale st now query =
     (data query = None \<or> isInvalidated query \<or> dataUpdatedAt query + st \<le> now)"

text \<open>
  One read of a key through \<open>useQuery\<close> at the time \<open>now\<close>: a disabled query and a query
  that is not stale serve what the cache holds, with no fetch; otherwise the query
  function runs. \<open>fetched\<close> is what it returns (\<open>None\<close>: the fetch failed, and the query
  keeps what it had). The result is the cache, the data served and whether a fetch ran.
\<close>

definition useQuery ::
  "QueryOptions \<Rightarrow> nat \<Rightarrow> 'a option \<Rightarrow> 'k \<Rightarrow> ('k, 'a) QueryCache
     \<Rightarrow> ('k, 'a) QueryCache \<times> 'a option \<times> bool" where
  "useQuery options now fetched queryKey cache =
     (if \<not> enabled options then (cache, getQueryData cache queryKey, False)
      else
        (case cache queryKey of
           Some query \<Rightarrow>
             if \<not> isStale (staleTime options) now query then (cache, data query, False)
             else
               (case fetched of
                  None \<Rightarrow> (cache, data query, True)
                | Some d \<Rightarrow>
                    (cache(queryKey \<mapsto>
                       \<lparr> data = Some d, isInvalidated = False, dataUpdatedAt = now \<rparr>),
                     Some d, True))
         | None \<Rightarrow>
             (case fetched of
                None \<Rightarrow>
                  (cache(queryKey \<mapsto>
                     \<lparr> data = None, isInvalidated = False, dataUpdatedAt = 0 \<rparr>),
                   None, True)
              | Some d \<Rightarrow>
                  (cache(queryKey \<mapsto>
                     \<lparr> data = Some d, isInvalidated = False, dataUpdatedAt = now \<rparr>),
                   Some d, True))))"

section \<open>The task hooks (hooks/useTasks.ts)\<close>

text \<open>
  The keys \<open>['tasks', 'list', { filters, page, size }]\<close> and \<open>['tasks', 'detail', id]\<close>:
  the client holds one cache for the list queries, keyed by the object of the third
  position, and one for the detail queries, keyed by the task's id.
\<close>

record ListKey =
  k_filters :: "TaskFilters option"
  k_page :: "int option"
  k_size :: "int option"

record QueryClient =
  taskLists :: "(ListKey, Task PaginatedResponse) QueryCache"
  taskDetails :: "(int, Task) QueryCache"

datatype ApiError = ApiError string string

text \<open>
  Modelled from the spec: \<open>withOptimisticUpdate\<close> is imported from \<open>lib/api\<close>, which is
  not among the sources. After the spec's optimistic mutation controller it applies the
  optimistic change, issues the call, and when the call fails invokes the rollback
  function and passes the error on. \<open>apiCall\<close> is the outcome of the call.
\<close>

definition withOptimisticUpdate ::
  "('s \<Rightarrow> 's) \<Rightarrow> ('s \<Rightarrow> 's) \<Rightarrow> ApiError + 'r \<Rightarrow> 's \<Rightarrow> 's \<times> (ApiError + 'r)" where
  "withOptimisticUpdate optimisticUpdate rollback apiCall s =
     (case apiCall of
        Inr r \<Rightarrow> (optimisticUpdate s, Inr r)
      | Inl e \<Rightarrow> (rollback (optimisticUpdate s), Inl e))"

subsection \<open>\<open>useUpdateTask\<close>\<close>

text \<open>
  In the functions below \<open>now\<close> is the time of the call and \<open>stamp\<close> the string
  \<open>new Date().toISOString()\<close> (the reads of the clock within one synchronous call give
  one value).
\<close>

definition updateTask_optimistic ::
  "nat \<Rightarrow> string \<Rightarrow> int \<Rightarrow> TaskUpdate \<Rightarrow> QueryClient \<Rightarrow> QueryClient" where
  "updateTask_optimistic now stamp i updates qc =
     (let qc1 =
        (case getQueryData (taskDetails qc) i of
           None \<Rightarrow> qc
         | Some previousTask \<Rightarrow>
             qc\<lparr> taskDetails :=
               setQueryData now i
                 (\<lambda>_. Some ((spreadUpdates previousTask updates)\<lparr> updated_at := stamp \<rparr>))
                 (taskDetails qc) \<rparr>)
      in qc1\<lparr> taskLists :=
           setQueriesData now
             (\<lambda>old. case old of
                      None \<Rightarrow> None
                    | Some r \<Rightarrow>
                        Some (r\<lparr> items :=
                          map (\<lambda>task.
                                 if task_id task = i
                                 then (spreadUpdates task updates)\<lparr> updated_at := stamp \<rparr>
                                 else task) (items r) \<rparr>))
             (taskLists qc1) \<rparr>)"

definition updateTask_rollback :: "int \<Rightarrow> QueryClient \<Rightarrow> QueryClient" where
  "updateTask_rollback i qc =
     qc\<lparr> taskDetails := invalidateQuery i (taskDetails qc),
         taskLists := invalidateQueries (taskLists qc) \<rparr>"

definition updateTask_onSuccess :: "nat \<Rightarrow> Task \<Rightarrow> QueryClient \<Rightarrow> QueryClient" where
  "updateTask_onSuccess now updatedTask qc =
     qc\<lparr> taskDetails :=
           setQueryData now (task_id updatedTask) (\<lambda>_. Some updatedTask) (taskDetails qc),
         taskLists :=
           setQueriesData now
             (\<lambda>old. case old of
                      None \<Rightarrow> None
                    | Some r \<Rightarrow>
                        Some (r\<lparr> items :=
                          map (\<lambda>task. if task_id task = task_id updatedTask then updatedTask
                                       else task) (items r) \<rparr>))
             (taskLists qc) \<rparr>"

text \<open>
  The mutation: \<open>mutationFn\<close>, then \<open>onSuccess\<close> with the server's task when the call
  resolved (at the later time \<open>now'\<close>); \<open>onError\<close> only writes to the console.
\<close>

definition useUpdateTask ::
  "nat \<Rightarrow> string \<Rightarrow> nat \<Rightarrow> int \<Rightarrow> TaskUpdate \<Rightarrow> ApiError + Task \<Rightarrow> QueryClient
     \<Rightarrow> QueryClient \<times> (ApiError + Task)" where
  "useUpdateTask now stamp now' i updates apiCall qc =
     (case withOptimisticUpdate (updateTask_optimistic now stamp i updates)
             (updateTask_rollback i) apiCall qc of
        (qc1, Inr updatedTask) \<Rightarrow> (updateTask_onSuccess now' updatedTask qc1, Inr updatedTask)
      | (qc1, Inl e) \<Rightarrow> (qc1, Inl e))"

subsection \<open>\<open>useDeleteTask\<close>\<close>

definition deleteTask_optimistic :: "nat \<Rightarrow> int \<Rightarrow> QueryClient \<Rightarrow> QueryClient" where
  "deleteTask_optimistic now i qc =
     qc\<lparr> taskLists :=
           setQueriesData now
             (\<lambda>old. case old of
                      None \<Rightarrow> None
                    | Some r \<Rightarrow>
                        Some (r\<lparr> items := filter (\<lambda>task. task_id task \<noteq> i) (items r),
                                 total_r := total_r r - 1 \<rparr>))
             (taskLists qc),
         taskDetails := removeQueries i (taskDetails qc) \<rparr>"

definition deleteTask_rollback :: "QueryClient \<Rightarrow> QueryClient" where
  "deleteTask_rollback qc = qc\<lparr> taskLists := invalidateQueries (taskLists qc) \<rparr>"

definition useDeleteTask ::
  "nat \<Rightarrow> int \<Rightarrow> ApiError + unit \<Rightarrow> QueryClient \<Rightarrow> QueryClient \<times> (ApiError + unit)" where
  "useDeleteTask now i apiCall qc =
     withOptimisticUpdate (deleteTask_optimistic now i) deleteTask_rollback apiCall qc"

subsection \<open>\<open>useCompleteTask\<close>\<close>

definition completeTask_optimistic :: "nat \<Rightarrow> string \<Rightarrow> int \<Rightarrow> QueryClient \<Rightarrow> QueryClient" where
  "completeTask_optimistic now stamp i qc =
     (case getQueryData (taskDetails qc) i of
        None \<Rightarrow> qc
      | Some previousTask \<Rightarrow>
          (let completedTask = previousTask\<lparr> status := COMPLETED, updated_at := stamp \<rparr>
           in qc\<lparr> taskDetails :=
                    setQueryData now i (\<lambda>_. Some completedTask) (taskDetails qc),
                  taskLists :=
                    setQueriesData now
                      (\<lambda>old. case old of
                               None \<Rightarrow> None
                             | Some r \<Rightarrow>
                                 Some (r\<lparr> items :=
                                   map (\<lambda>task. if task_id task = i then completedTask else task)
                                     (items r) \<rparr>))
                      (taskLists qc) \<rparr>))"

definition completeTask_rollback :: "int \<Rightarrow> QueryClient \<Rightarrow> QueryClient" where
  "completeTask_rollback i qc =
     qc\<lparr> taskDetails := invalidateQuery i (taskDetails qc),
         taskLists := invalidateQueries (taskLists qc) \<rparr>"

definition completeTask_onSuccess :: "nat \<Rightarrow> Task \<Rightarrow> QueryClient \<Rightarrow> QueryClient" where
  "completeTask_onSuccess now completedTask qc =
     qc\<lparr> taskDetails :=
           setQueryData now (task_id completedTask) (\<lambda>_. Some completedTask) (taskDetails qc),
         taskLists :=
           setQueriesData now
             (\<lambda>old. case old of
                      None \<Rightarrow> None
                    | Some r \<Rightarrow>
                        Some (r\<lparr> items :=
                          map (\<lambda>task. if task_id task = task_id completedTask then completedTask
                                       else task) (items r) \<rparr>))
             (taskLists qc) \<rparr>"

definition useCompleteTask ::
  "nat \<Rightarrow> string \<Rightarrow> nat \<Rightarrow> int \<Rightarrow> ApiError + Task \<Rightarrow> QueryClient
     \<Rightarrow> QueryClient \<times> (ApiError + Task)" where
  "useCompleteTask now stamp now' i apiCall qc =
     (case withOptimisticUpdate (completeTask_optimistic now stamp i)
             (completeTask_rollback i) apiCall qc of
        (qc1, Inr completedTask) \<Rightarrow>
          (completeTask_onSuccess now' completedTask qc1, Inr completedTask)
      | (qc1, Inl e) \<Rightarrow> (qc1, Inl e))"

subsection \<open>\<open>useCreateTask\<close>\<close>

definition createTask_onSuccess :: "nat \<Rightarrow> Task \<Rightarrow> QueryClient \<Rightarrow> QueryClient" where
  "createTask_onSuccess now newTask qc =
     qc\<lparr> taskLists := invalidateQueries (taskLists qc),
         taskDetails :=
           setQueryData now (task_id newTask) (\<lambda>_. Some newTask) (taskDetails qc) \<rparr>"

definition useCreateTask ::
  "nat \<Rightarrow> ApiError + Task \<Rightarrow> QueryClient \<Rightarrow> QueryClient \<times> (ApiError + Task)" where
  "useCreateTask now' apiCall qc =
     (case apiCall of
        Inr newTask \<Rightarrow> (createTask_onSuccess now' newTask qc, Inr newTask)
      | Inl e \<Rightarrow> (qc, Inl e))"

section \<open>Synchronisation (hooks/useRealTimeSync.ts)\<close>

subsection \<open>\<open>useOptimisticSync\<close>\<close>

text \<open>
  \<open>applyOptimisticUpdate\<close> on one cache. It returns the cache after the optimistic
  change and the \<open>rollback\<close> function of the returned object, which runs later (at a
  time of its own, on the cache as it is then). \<open>rollback\<close> is the optional third
  argument.
\<close>

definition applyOptimisticUpdate ::
  "nat \<Rightarrow> 'k \<Rightarrow> ('a option \<Rightarrow> 'a) \<Rightarrow> (('k, 'a) QueryCache \<Rightarrow> ('k, 'a) QueryCache) option
     \<Rightarrow> ('k, 'a) QueryCache
     \<Rightarrow> ('k, 'a) QueryCache \<times> (nat \<Rightarrow> ('k, 'a) QueryCache \<Rightarrow> ('k, 'a) QueryCache)" where
  "applyOptimisticUpdate now queryKey updater rollback cache =
     (let previousData = getQueryData cache queryKey
      in (setQueryData now queryKey (\<lambda>old. Some (updater old)) cache,
          (\<lambda>now' cache'.
             case rollback of
               Some r \<Rightarrow> r cache'
             | None \<Rightarrow> setQueryData now' queryKey (\<lambda>_. previousData) cache')))"

subsection \<open>\<open>useRealTimeSync\<close>\<close>

text \<open>
  What \<open>syncData\<close> acts on: the offline store, the query client, and the notifications
  shown to the user (\<open>notify.warning\<close> adds one; its title, message and the label of its
  action are kept).
\<close>

datatype Notification = Warning string string string

record 'd SyncWorld =
  store :: "'d OfflineState"
  queryClient :: QueryClient
  notifications :: "Notification list"

text \<open>
  \<open>SyncConfig\<close>. The optional callback \<open>onError\<close> is code of the caller: a function of
  the error on whatever the caller can reach.
\<close>

record 'd SyncConfig =
  sync_enabled :: bool
  interval :: nat
  onError :: "(ApiError \<Rightarrow> 'd SyncWorld \<Rightarrow> 'd SyncWorld) option"

text \<open>The configuration the application component passes.\<close>

definition appSyncConfig :: "'d SyncConfig" where
  "appSyncConfig = \<lparr> sync_enabled = True, interval = 30000, onError = None \<rparr>"

text \<open>
  \<open>syncData\<close>. \<open>isOnlineHook\<close> is the value of \<open>isOnline\<close> the hook rendered with, \<open>now\<close> is
  \<open>Date.now()\<close>, and \<open>failure\<close> is the error with which the awaited invalidation rejects
  (\<open>None\<close>: it resolves).
\<close>

definition syncData ::
  "'d SyncConfig \<Rightarrow> bool \<Rightarrow> nat \<Rightarrow> ApiError option \<Rightarrow> 'd SyncWorld \<Rightarrow> 'd SyncWorld" where
  "syncData config isOnlineHook now failure world =
     (if \<not> isOnlineHook \<or> \<not> sync_enabled config then world
      else
        (let world1 =
           world\<lparr> queryClient :=
             (queryClient world)\<lparr> taskLists := invalidateQueries (taskLists (queryClient world)) \<rparr> \<rparr>
         in case failure of
              None \<Rightarrow> world1\<lparr> store := setLastSyncTimestamp now (store world1) \<rparr>
            | Some error \<Rightarrow>
                (case onError config of
                   Some handler \<Rightarrow> handler error world1
                 | None \<Rightarrow>
                     world1\<lparr> notifications :=
                       notifications world1 @
                         [Warning ''Sync Failed''
                            ''Unable to sync data. Your changes are saved locally.''
                            ''Retry''] \<rparr>)))"

section \<open>Example values\<close>

definition exampleTask :: Task where
  "exampleTask =
     \<lparr> task_id = 7, title = ''Buy cake'', description = None, due_date = None,
       priority = MEDIUM, category = None, status = PENDING,
       created_at = ''2024-01-01T00:00:00.000Z'', updated_at = ''2024-01-01T00:00:00.000Z'',
       calendar_event_id = None, ai_generated = False \<rparr>"

definition exampleServerTask :: Task where
  "exampleServerTask =
     exampleTask\<lparr> status := COMPLETED, updated_at := ''2024-01-02T08:00:01.500Z'' \<rparr>"

definition exampleOperation :: "int OfflineOperation" where
  "exampleOperation =
     \<lparr> op_id = ''1730k3j9xq2ab'', op_type = COMPLETE_TASK, op_data = 7, timestamp = 1730,
       retryCount = 0 \<rparr>"

definition exampleStore :: "bool \<Rightarrow> int OfflineState" where
  "exampleStore online =
     \<lparr> isOnline = online, pendingOperations = [exampleOperation], cachedTasks = [exampleTask],
       cachedChatMessages = [], lastSyncTimestamp = 0 \<rparr>"

definition exampleListKey :: ListKey where
  "exampleListKey = \<lparr> k_filters = None, k_page = Some 1, k_size = Some 20 \<rparr>"

definition exampleList :: "Task PaginatedResponse" where
  "exampleList = \<lparr> items = [exampleTask], total_r = 1, page_r = 1, size_r = 20, pages_r = 1 \<rparr>"

text \<open>A client that holds one list query, with the example task, and no detail query.\<close>

definition exampleClientList :: QueryClient where
  "exampleClientList =
     \<lparr> taskLists =
         (\<lambda>_. None)(exampleListKey \<mapsto>
           \<lparr> data = Some exampleList, isInvalidated = False, dataUpdatedAt = 1000 \<rparr>),
       taskDetails = (\<lambda>_. None) \<rparr>"

text \<open>The same client with the detail query of the example task as well.\<close>

definition exampleClient :: QueryClient where
  "exampleClient =
     exampleClientList\<lparr> taskDetails :=
       (\<lambda>_. None)(7 \<mapsto> \<lparr> data = Some exampleTask, isInvalidated = False, dataUpdatedAt = 1000 \<rparr>) \<rparr>"

text \<open>The update \<open>{ status: 'COMPLETED' }\<close> and an error of the API.\<close>

definition exampleUpdate :: TaskUpdate where
  "exampleUpdate =
     \<lparr> u_title = None, u_description = None, u_due_date = None, u_priority = None,
       u_category = None, u_status = Some COMPLETED \<rparr>"

definition exampleError :: ApiError where
  "exampleError = ApiError ''internal_error'' ''Internal Server Error''"

definition exampleWorld :: "int SyncWorld" where
  "exampleWorld =
     \<lparr> store = exampleStore True, queryClient = exampleClient, notifications = [] \<rparr>"

definition exampleSyncConfig :: "int SyncConfig" where
  "exampleSyncConfig =
     \<lparr> sync_enabled = True, interval = 30000,
       onError = Some (\<lambda>error world. world\<lparr> notifications := [] \<rparr>) \<rparr>"

section \<open>Properties of the offline store\<close>

lemma fst_drainLoop_Cons:
  "fst (drainLoop d (x # xs) s) = fst (drainLoop d xs (drainStep d x s))"
  by (simp split: prod.splits)


lemma drainStep_isOnline: "isOnline (drainStep d x s) = isOnline s"
  by (simp add: drainStep_def removePendingOperation_def incrementRetryCount_def)

lemma drainLoop_isOnline: "isOnline (fst (drainLoop d xs s)) = isOnline s"
  by (induction xs arbitrary: s)
     (simp_all add: fst_drainLoop_Cons drainStep_isOnline del: drainLoop.simps(2))

lemma processPendingOperations_isOnline:
  "isOnline (fst (processPendingOperations d h s)) = isOnline s"
  by (simp add: processPendingOperations_def drainLoop_isOnline)

text \<open>
  C8, as the code has it: a call of \<open>queueOperation\<close> decides on the value of \<open>isOnline\<close>
  that its hook read at render, not on the store at the call. When the hook read
  offline, the queue of the store grows by exactly one operation, at its end, with the
  given type and payload and retry counter 0, nothing else in the store changes, and the
  call returns true (queued); when the hook read online, the store is unchanged and the
  call returns false (execute immediately). When the hook has rendered with the store,
  this is the connectivity state of the store.
\<close>

theorem queueOperation_decides_on_rendered_isOnline:
  "queueOperation hook nowId rnd nowTs type dat state =
     (if isOnline hook then (state, False)
      else (state\<lparr> pendingOperations := pendingOperations state @
              [\<lparr> op_id = toString nowId @ rnd, op_type = type, op_data = dat,
                 timestamp = nowTs, retryCount = 0 \<rparr>] \<rparr>, True))
   \<and> (renderedWith hook state \<longrightarrow>
        queueOperation hook nowId rnd nowTs type dat state =
          (if isOnline state then (state, False)
           else (state\<lparr> pendingOperations := pendingOperations state @
                   [\<lparr> op_id = toString nowId @ rnd, op_type = type, op_data = dat,
                      timestamp = nowTs, retryCount = 0 \<rparr>] \<rparr>, True)))"
  by (simp add: queueOperation_def addPendingOperation_def renderedWith_def)

theorem queueOperation_witness:
  "queueOperation (exampleStore False) 1731 ''zz81mm0pq'' 1732 UPDATE_TASK 7 (exampleStore False) =
     ((exampleStore False)\<lparr> pendingOperations :=
         [exampleOperation,
          \<lparr> op_id = toString 1731 @ ''zz81mm0pq'', op_type = UPDATE_TASK, op_data = 7,
            timestamp = 1732, retryCount = 0 \<rparr>] \<rparr>, True)
   \<and> queueOperation (exampleStore True) 1731 ''zz81mm0pq'' 1732 UPDATE_TASK 7 (exampleStore True) =
     (exampleStore True, False)"
proof -
  have r: "renderedWith (exampleStore False) (exampleStore False)"
    "renderedWith (exampleStore True) (exampleStore True)"
    by (simp_all add: renderedWith_def)
  from queueOperation_decides_on_rendered_isOnline
          [of "exampleStore False" 1731 "''zz81mm0pq''" 1732 UPDATE_TASK 7 "exampleStore False"]
       queueOperation_decides_on_rendered_isOnline
          [of "exampleStore True" 1731 "''zz81mm0pq''" 1732 UPDATE_TASK 7 "exampleStore True"]
       r
  show ?thesis by (simp add: exampleStore_def)
qed

theorem queueOperation_stale_hook_counterexample:
  "isOnline (exampleStore False) = False
   \<and> queueOperation (exampleStore True) 1731 ''zz81mm0pq'' 1732 UPDATE_TASK 7 (exampleStore False) =
       (exampleStore False, False)"
  by (simp add: queueOperation_def exampleStore_def)

text \<open>
  C9: a task status is one of \<open>PENDING\<close>, \<open>IN_PROGRESS\<close>, \<open>COMPLETED\<close>, whatever produced
  it, and the toggle-complete action gives the task with the given id the status
  \<open>PENDING\<close> when it was \<open>COMPLETED\<close> and \<open>COMPLETED\<close> otherwise, leaving the status of
  every other task as it was.
\<close>

theorem handleToggleComplete_status:
  "map status (handleToggleComplete stamp i prev) =
     map (\<lambda>task. if task_id task = i
                  then (if status task = COMPLETED then PENDING else COMPLETED)
                  else status task) prev
   \<and> (\<forall>s :: TaskStatus. s = PENDING \<or> s = IN_PROGRESS \<or> s = COMPLETED)"
proof
  show "map status (handleToggleComplete stamp i prev) =
     map (\<lambda>task. if task_id task = i
                  then (if status task = COMPLETED then PENDING else COMPLETED)
                  else status task) prev"
    by (induction prev) (simp_all add: handleToggleComplete_def)
  show "\<forall>s :: TaskStatus. s = PENDING \<or> s = IN_PROGRESS \<or> s = COMPLETED"
    using TaskStatus.exhaust by blast
qed

theorem handleToggleComplete_witness:
  "map status
     (handleToggleComplete ''2024-01-02T08:00:00.000Z'' 7
        [exampleTask, exampleServerTask, exampleTask\<lparr> task_id := 8, status := IN_PROGRESS \<rparr>])
   = [COMPLETED, PENDING, IN_PROGRESS]"
  using handleToggleComplete_status
          [of "''2024-01-02T08:00:00.000Z''" 7
              "[exampleTask, exampleServerTask,
                exampleTask\<lparr> task_id := 8, status := IN_PROGRESS \<rparr>]"]
  by (simp add: exampleTask_def exampleServerTask_def)

text \<open>
  C10: what is written to storage is the object built by \<open>partialize\<close>, which has the
  four members \<open>pendingOperations\<close>, \<open>cachedTasks\<close>, \<open>cachedChatMessages\<close> and
  \<open>lastSyncTimestamp\<close> and is determined by exactly these four members of the state: it
  does not depend on \<open>isOnline\<close>. After a reload the four members are the stored ones
  and \<open>isOnline\<close> is the connectivity signal of the environment, with or without a
  stored object.
\<close>

theorem persisted_state_excludes_isOnline:
  "(partialize state = partialize state') =
     (pendingOperations state = pendingOperations state' \<and>
      cachedTasks state = cachedTasks state' \<and>
      cachedChatMessages state = cachedChatMessages state' \<and>
      lastSyncTimestamp state = lastSyncTimestamp state')
   \<and> partialize (state\<lparr> isOnline := b \<rparr>) = partialize state
   \<and> reload (Some (partialize state)) navigator_onLine = state\<lparr> isOnline := navigator_onLine \<rparr>
   \<and> isOnline (reload None navigator_onLine :: 'd OfflineState) = navigator_onLine"
  by (simp add: reload_def rehydrate_def partialize_def initialState_def)

theorem persisted_state_witness:
  "partialize (exampleStore True) = partialize (exampleStore False)
   \<and> reload (Some (partialize (exampleStore True))) False = exampleStore False"
  using persisted_state_excludes_isOnline [of "exampleStore True" "exampleStore False" False False]
  by (simp add: exampleStore_def partialize_def reload_def rehydrate_def initialState_def)

text \<open>
  C6: a run of \<open>syncData\<close> leaves \<open>isOnline\<close> as it was, whether the invalidation
  resolves or rejects; with a caller's \<open>onError\<close> callback this holds as long as the
  callback itself leaves the flag alone (the application passes none). Every action of
  the store other than \<open>setOnlineStatus\<close>, and the drain of the queue, leave the flag
  as it was; the handlers of the \<open>online\<close> and \<open>offline\<close> events set it.
\<close>

theorem isOnline_changed_only_by_signal_handlers:
  assumes "\<forall>handler. onError config = Some handler \<longrightarrow>
             (\<forall>e w. isOnline (store (handler e w)) = isOnline (store w))"
  shows "isOnline (store (syncData config isOnlineHook now failure world)) = isOnline (store world)
   \<and> isOnline (store (syncData appSyncConfig isOnlineHook now failure world)) = isOnline (store world)
   \<and> isOnline (addPendingOperation nowId rnd nowTs type dat state) = isOnline state
   \<and> isOnline (removePendingOperation opId state) = isOnline state
   \<and> isOnline (incrementRetryCount opId state) = isOnline state
   \<and> isOnline (clearPendingOperations state) = isOnline state
   \<and> isOnline (setCachedTasks tasks state) = isOnline state
   \<and> isOnline (addCachedTask task state) = isOnline state
   \<and> isOnline (updateCachedTask i updates state) = isOnline state
   \<and> isOnline (removeCachedTask i state) = isOnline state
   \<and> isOnline (setCachedChatMessages messages state) = isOnline state
   \<and> isOnline (addCachedChatMessage message state) = isOnline state
   \<and> isOnline (setLastSyncTimestamp now state) = isOnline state
   \<and> isOnline (fst (processPendingOperations dispatch hook state)) = isOnline state
   \<and> isOnline (handleOnline dispatch hook state) = True
   \<and> isOnline (handleOffline state) = False"
proof -
  have sync: "isOnline (store (syncData c isOnlineHook now failure world)) = isOnline (store world)"
    if "\<forall>handler. onError c = Some handler \<longrightarrow>
             (\<forall>e w. isOnline (store (handler e w)) = isOnline (store w))" for c :: "'a SyncConfig"
    using that
    by (auto simp: syncData_def Let_def setLastSyncTimestamp_def split: option.splits)
  have app: "isOnline (store (syncData appSyncConfig isOnlineHook now failure world)) = isOnline (store world)"
    by (rule sync) (simp add: appSyncConfig_def)
  have actions: "isOnline (addPendingOperation nowId rnd nowTs type dat state) = isOnline state
   \<and> isOnline (removePendingOperation opId state) = isOnline state
   \<and> isOnline (incrementRetryCount opId state) = isOnline state
   \<and> isOnline (clearPendingOperations state) = isOnline state
   \<and> isOnline (setCachedTasks tasks state) = isOnline state
   \<and> isOnline (addCachedTask task state) = isOnline state
   \<and> isOnline (updateCachedTask i updates state) = isOnline state
   \<and> isOnline (removeCachedTask i state) = isOnline state
   \<and> isOnline (setCachedChatMessages messages state) = isOnline state
   \<and> isOnline (addCachedChatMessage message state) = isOnline state
   \<and> isOnline (setLastSyncTimestamp now state) = isOnline state"
    by (simp add: addPendingOperation_def removePendingOperation_def incrementRetryCount_def
        clearPendingOperations_def setCachedTasks_def addCachedTask_def updateCachedTask_def
        removeCachedTask_def setCachedChatMessages_def addCachedChatMessage_def
        setLastSyncTimestamp_def)
  have handlers: "isOnline (handleOnline dispatch hook state) = True
   \<and> isOnline (handleOffline state) = False"
    by (simp add: handleOnline_def handleOffline_def processPendingOperations_isOnline
        setOnlineStatus_def)
  from sync [OF assms] app actions handlers processPendingOperations_isOnline [of dispatch hook state]
  show ?thesis by blast
qed

theorem isOnline_witness:
  "isOnline (store (syncData exampleSyncConfig True 5000 (Some (ApiError ''500'' ''boom'')) exampleWorld))
   \<and> notifications (syncData exampleSyncConfig True 5000 (Some (ApiError ''500'' ''boom'')) exampleWorld) = []
   \<and> notifications (syncData appSyncConfig True 5000 (Some (ApiError ''500'' ''boom'')) exampleWorld) =
       [Warning ''Sync Failed'' ''Unable to sync data. Your changes are saved locally.'' ''Retry'']"
proof -
  have h: "\<forall>handler. onError exampleSyncConfig = Some handler \<longrightarrow>
             (\<forall>e w. isOnline (store (handler e w)) = isOnline (store w))"
    by (simp add: exampleSyncConfig_def)
  from isOnline_changed_only_by_signal_handlers
         [OF h, of True 5000 "Some (ApiError ''500'' ''boom'')" exampleWorld]
  have "isOnline (store (syncData exampleSyncConfig True 5000 (Some (ApiError ''500'' ''boom'')) exampleWorld))
          = isOnline (store exampleWorld)"
    by (rule conjunct1)
  then show ?thesis
    by (simp add: exampleWorld_def exampleStore_def syncData_def exampleSyncConfig_def
        appSyncConfig_def)
qed

section \<open>Properties of the query cache\<close>

lemma useQuery_after_fetch:
  assumes "snd (snd (useQuery options t0 (Some v) k cache))"
  shows "fst (useQuery options t0 (Some v) k cache) k =
           Some \<lparr> data = Some v, isInvalidated = False, dataUpdatedAt = t0 \<rparr>"
  using assms by (auto simp: useQuery_def split: if_splits option.splits)

lemma useQuery_fresh:
  assumes "enabled options"
    and "cache k = Some \<lparr> data = Some v, isInvalidated = False, dataUpdatedAt = t0 \<rparr>"
  shows "(now < t0 + staleTime options \<longrightarrow>
            useQuery options now fetched k cache = (cache, Some v, False))
       \<and> (t0 + staleTime options \<le> now \<longrightarrow> snd (snd (useQuery options now fetched k cache)))"
  using assms by (auto simp: useQuery_def isStale_def split: option.splits)

text \<open>
  C7: the hooks for task lists and for a single task pass a stale time of 5 minutes, the
  hook for chat message pages one of 2 minutes (in milliseconds). For each of the three,
  after a read at \<open>t0\<close> that fetched the value \<open>v\<close>, a read of the same key at a time
  before \<open>t0\<close> plus the stale time serves \<open>v\<close> from the cache, which it leaves as it is,
  and runs no fetch; a read at or after that time runs a fetch.
\<close>

theorem staleness_windows:
  "staleTime useTasks_options = 5 * 60 * 1000
   \<and> staleTime (useTask_options i) = 5 * 60 * 1000
   \<and> staleTime useChatMessages_options = 2 * 60 * 1000
   \<and> (\<forall>options \<in> {useTasks_options, useTask_options i, useChatMessages_options}.
        enabled options \<longrightarrow> snd (snd (useQuery options t0 (Some v) k cache)) \<longrightarrow>
        (let cache1 = fst (useQuery options t0 (Some v) k cache)
         in (now < t0 + staleTime options \<longrightarrow>
               useQuery options now fetched k cache1 = (cache1, Some v, False))
          \<and> (t0 + staleTime options \<le> now \<longrightarrow>
               snd (snd (useQuery options now fetched k cache1)))))"
proof -
  have "staleTime useTasks_options = 5 * 60 * 1000
   \<and> staleTime (useTask_options i) = 5 * 60 * 1000
   \<and> staleTime useChatMessages_options = 2 * 60 * 1000"
    by (simp add: useTasks_options_def useTask_options_def useChatMessages_options_def)
  moreover have "(let cache1 = fst (useQuery options t0 (Some v) k cache)
         in (now < t0 + staleTime options \<longrightarrow>
               useQuery options now fetched k cache1 = (cache1, Some v, False))
          \<and> (t0 + staleTime options \<le> now \<longrightarrow>
               snd (snd (useQuery options now fetched k cache1))))"
    if "enabled options" "snd (snd (useQuery options t0 (Some v) k cache))" for options
    unfolding Let_def
    by (rule useQuery_fresh [of options "fst (useQuery options t0 (Some v) k cache)" k v t0,
          OF that(1) useQuery_after_fetch [OF that(2)]])
  ultimately show ?thesis by blast
qed

theorem staleness_windows_witness:
  "useQuery useTasks_options (1000 + 299999) None exampleListKey
     (fst (useQuery useTasks_options 1000 (Some exampleList) exampleListKey (\<lambda>_. None))) =
   (fst (useQuery useTasks_options 1000 (Some exampleList) exampleListKey (\<lambda>_. None)),
    Some exampleList, False)
   \<and> snd (snd (useQuery useChatMessages_options (1000 + 120000) (Some [''hi'']) (1 :: nat)
        (fst (useQuery useChatMessages_options 1000 (Some [''hello'']) 1 (\<lambda>_. None)))))"
proof -
  have a: "enabled useTasks_options"
    and b: "snd (snd (useQuery useTasks_options 1000 (Some exampleList) exampleListKey (\<lambda>_. None)))"
    and c: "(1000 + 299999 :: nat) < 1000 + staleTime useTasks_options"
    by (simp_all add: useTasks_options_def useQuery_def)
  have a': "enabled useChatMessages_options"
    and b': "snd (snd (useQuery useChatMessages_options 1000 (Some [''hello'']) (1 :: nat) (\<lambda>_. None)))"
    and c': "1000 + staleTime useChatMessages_options \<le> (1000 + 120000 :: nat)"
    by (simp_all add: useChatMessages_options_def useQuery_def)
  from staleness_windows [of 7 1000 exampleList exampleListKey "\<lambda>_. None" "1000 + 299999" None]
       a b c
  have 1: "useQuery useTasks_options (1000 + 299999) None exampleListKey
     (fst (useQuery useTasks_options 1000 (Some exampleList) exampleListKey (\<lambda>_. None))) =
   (fst (useQuery useTasks_options 1000 (Some exampleList) exampleListKey (\<lambda>_. None)),
    Some exampleList, False)"
    by (simp add: Let_def)
  from staleness_windows [of 7 1000 "[''hello'']" "1 :: nat" "\<lambda>_. None" "1000 + 120000" "Some [''hi'']"]
       a' b' c'
  have 2: "snd (snd (useQuery useChatMessages_options (1000 + 120000) (Some [''hi'']) (1 :: nat)
        (fst (useQuery useChatMessages_options 1000 (Some [''hello'']) 1 (\<lambda>_. None)))))"
    by (simp add: Let_def)
  from 1 2 show ?thesis by simp
qed

section \<open>Properties of the drain\<close>

lemma absent_iff:
  "(filter (\<lambda>op. op_id op = i) q = []) = (i \<notin> op_id ` set q)"
  by (induction q) auto

lemma distinct_ids_Cons:
  assumes "distinct (map op_id (y # ys))" and "z \<in> set ys"
  shows "op_id z \<noteq> op_id y"
proof -
  from assms(1) have "op_id y \<notin> set (map op_id ys)" by simp
  moreover from assms(2) have "op_id z \<in> set (map op_id ys)" by simp
  ultimately show ?thesis by metis
qed

lemma drainStep_pending:
  "pendingOperations (drainStep d x s) =
     (if d x \<or> retryCount x \<ge> 3
      then filter (\<lambda>op. op_id op \<noteq> op_id x) (pendingOperations s)
      else map (\<lambda>op. if op_id op = op_id x then op\<lparr> retryCount := retryCount op + 1 \<rparr> else op)
             (pendingOperations s))"
  by (simp add: drainStep_def removePendingOperation_def incrementRetryCount_def)

lemma drainStep_distinct:
  assumes "distinct (map op_id (pendingOperations s))"
  shows "distinct (map op_id (pendingOperations (drainStep d x s)))"
proof -
  have "op_id \<circ> (\<lambda>op. if op_id op = op_id x then op\<lparr> retryCount := retryCount op + 1 \<rparr> else op)
          = (op_id :: 'a OfflineOperation \<Rightarrow> string)"
    by (rule ext) simp
  with assms show ?thesis
    by (simp add: drainStep_pending distinct_map_filter)
qed

lemma drainStep_other:
  assumes "op_id x \<noteq> i"
  shows "filter (\<lambda>op. op_id op = i) (pendingOperations (drainStep d x s)) =
         filter (\<lambda>op. op_id op = i) (pendingOperations s)"
proof -
  have 1: "filter (\<lambda>op. op_id op = i) (filter (\<lambda>op. op_id op \<noteq> op_id x) q) =
           filter (\<lambda>op. op_id op = i) q" for q :: "'a OfflineOperation list"
    using assms by (induction q) auto
  have 2: "filter (\<lambda>op. op_id op = i)
             (map (\<lambda>op. if op_id op = op_id x then op\<lparr> retryCount := retryCount op + 1 \<rparr> else op) q) =
           filter (\<lambda>op. op_id op = i) q" for q :: "'a OfflineOperation list"
    using assms by (induction q) auto
  show ?thesis
    by (cases "d x \<or> retryCount x \<ge> 3") (simp_all only: drainStep_pending 1 2 if_True if_False)
qed

lemma drainStep_same:
  "filter (\<lambda>op. op_id op = op_id x) (pendingOperations (drainStep d x s)) =
     (if d x \<or> retryCount x \<ge> 3 then []
      else map (\<lambda>op. op\<lparr> retryCount := retryCount op + 1 \<rparr>)
             (filter (\<lambda>op. op_id op = op_id x) (pendingOperations s)))"
proof -
  have 1: "filter (\<lambda>op. op_id op = i) (filter (\<lambda>op. op_id op \<noteq> i) q) = []"
    for i and q :: "'a OfflineOperation list"
    by (induction q) auto
  have 2: "filter (\<lambda>op. op_id op = i)
             (map (\<lambda>op. if op_id op = i then op\<lparr> retryCount := retryCount op + 1 \<rparr> else op) q) =
           map (\<lambda>op. op\<lparr> retryCount := retryCount op + 1 \<rparr>) (filter (\<lambda>op. op_id op = i) q)"
    for i and q :: "'a OfflineOperation list"
    by (induction q) auto
  show ?thesis
    by (cases "d x \<or> retryCount x \<ge> 3") (simp_all only: drainStep_pending 1 2 if_True if_False)
qed

lemma drainStep_absent:
  assumes "filter (\<lambda>op. op_id op = i) (pendingOperations s) = []"
  shows "filter (\<lambda>op. op_id op = i) (pendingOperations (drainStep d x s)) = []"
proof (cases "op_id x = i")
  case True
  with assms drainStep_same [of x d s] show ?thesis by simp
next
  case False
  with assms drainStep_other [OF False, of d s] show ?thesis by simp
qed

lemma drainLoop_absent:
  "filter (\<lambda>op. op_id op = i) (pendingOperations s) = [] \<Longrightarrow>
   filter (\<lambda>op. op_id op = i) (pendingOperations (fst (drainLoop d xs s))) = []"
  by (induction xs arbitrary: s)
     (simp_all add: fst_drainLoop_Cons drainStep_absent del: drainLoop.simps(2))

lemma drainLoop_distinct:
  "distinct (map op_id (pendingOperations s)) \<Longrightarrow>
   distinct (map op_id (pendingOperations (fst (drainLoop d xs s))))"
  by (induction xs arbitrary: s)
     (simp_all add: fst_drainLoop_Cons drainStep_distinct del: drainLoop.simps(2))

lemma drainLoop_other:
  "\<forall>x \<in> set xs. op_id x \<noteq> i \<Longrightarrow>
   filter (\<lambda>op. op_id op = i) (pendingOperations (fst (drainLoop d xs s))) =
   filter (\<lambda>op. op_id op = i) (pendingOperations s)"
  by (induction xs arbitrary: s)
     (simp_all add: fst_drainLoop_Cons drainStep_other del: drainLoop.simps(2))

lemma drainLoop_one:
  assumes "distinct (map op_id xs)" and "x \<in> set xs"
  shows "filter (\<lambda>op. op_id op = op_id x) (pendingOperations (fst (drainLoop d xs s))) =
     (if d x \<or> retryCount x \<ge> 3 then []
      else map (\<lambda>op. op\<lparr> retryCount := retryCount op + 1 \<rparr>)
             (filter (\<lambda>op. op_id op = op_id x) (pendingOperations s)))"
  using assms
proof (induction xs arbitrary: s)
  case Nil
  then show ?case by simp
next
  case (Cons y ys)
  show ?case
  proof (cases "x = y")
    case True
    with Cons.prems(1) have "\<forall>z \<in> set ys. op_id z \<noteq> op_id x"
      using distinct_ids_Cons by blast
    from drainLoop_other [OF this, of d "drainStep d y s"] True
    show ?thesis unfolding fst_drainLoop_Cons by (simp only: drainStep_same)
  next
    case False
    with Cons.prems have x: "x \<in> set ys" and d: "distinct (map op_id ys)" by auto
    from distinct_ids_Cons [OF Cons.prems(1) x] have ne: "op_id y \<noteq> op_id x" by simp
    from Cons.IH [OF d x, of "drainStep d y s"] drainStep_other [OF ne, of d s]
    show ?thesis unfolding fst_drainLoop_Cons by simp
  qed
qed

lemma filter_same_id:
  "distinct (map op_id q) \<Longrightarrow> x \<in> set q \<Longrightarrow> filter (\<lambda>op. op_id op = op_id x) q = [x]"
proof (induction q)
  case Nil
  then show ?case by simp
next
  case (Cons y q)
  show ?case
  proof (cases "x = y")
    case True
    with Cons.prems have "op_id y \<notin> op_id ` set q" by simp
    then have "filter (\<lambda>op. op_id op = op_id y) q = []"
      by (simp add: absent_iff)
    with True show ?thesis by simp
  next
    case False
    with Cons.prems have x: "x \<in> set q" and d: "distinct (map op_id q)" by auto
    from distinct_ids_Cons [OF Cons.prems(1) x] have "op_id y \<noteq> op_id x" by simp
    with Cons.IH [OF d x] show ?thesis by simp
  qed
qed

lemma processPendingOperations_unfold:
  "isOnline h \<Longrightarrow> processPendingOperations d h s = drainLoop d (pendingOperations h) s"
  by (auto simp: processPendingOperations_def)

lemma processPendingOperations_one:
  assumes "isOnline h" and "distinct (map op_id (pendingOperations h))"
    and "x \<in> set (pendingOperations h)"
  shows "filter (\<lambda>op. op_id op = op_id x)
           (pendingOperations (fst (processPendingOperations d h s))) =
     (if d x \<or> retryCount x \<ge> 3 then []
      else map (\<lambda>op. op\<lparr> retryCount := retryCount op + 1 \<rparr>)
             (filter (\<lambda>op. op_id op = op_id x) (pendingOperations s)))"
  using drainLoop_one [OF assms(2,3), of d s]
  by (simp add: processPendingOperations_unfold [OF assms(1)])

lemma processPendingOperations_absent:
  "filter (\<lambda>op. op_id op = i) (pendingOperations s) = [] \<Longrightarrow>
   filter (\<lambda>op. op_id op = i) (pendingOperations (fst (processPendingOperations d h s))) = []"
  by (simp add: processPendingOperations_def drainLoop_absent)

lemma processPendingOperations_distinct:
  "distinct (map op_id (pendingOperations s)) \<Longrightarrow>
   distinct (map op_id (pendingOperations (fst (processPendingOperations d h s))))"
  by (simp add: processPendingOperations_def drainLoop_distinct)

lemma runs_absent:
  "filter (\<lambda>op. op_id op = i) (pendingOperations s) = [] \<Longrightarrow>
   filter (\<lambda>op. op_id op = i) (pendingOperations (runs as s)) = []"
proof (induction as arbitrary: s)
  case Nil
  then show ?case by simp
next
  case (Cons a as)
  obtain d h where a: "a = (d, h)" by (cases a)
  from Cons.prems have "filter (\<lambda>op. op_id op = i)
      (pendingOperations (fst (processPendingOperations d h s))) = []"
    by (rule processPendingOperations_absent)
  then show ?case unfolding a runs.simps by (rule Cons.IH)
qed

lemma runs_failing:
  fixes s :: "'d OfflineState"
  assumes "isOnline s" and "distinct (map op_id (pendingOperations s))"
    and "x \<in> set (pendingOperations s)"
    and "\<forall>a \<in> set as. \<forall>op. op_id op = op_id x \<longrightarrow> \<not> fst a op"
    and "renderedBeforeEach as s"
  shows "filter (\<lambda>op. op_id op = op_id x) (pendingOperations (runs as s)) =
     (if as = [] \<or> retryCount x + length as \<le> 3
      then [x\<lparr> retryCount := retryCount x + length as \<rparr>] else [])"
  using assms
proof (induction as arbitrary: s x)
  case Nil
  then show ?case by (simp add: filter_same_id)
next
  case (Cons a as)
  obtain p h where a: "a = (p, h)" by (cases a)
  let ?s1 = "fst (processPendingOperations p h s)"
  from Cons.prems(5) a have rw: "isOnline h = isOnline s" "pendingOperations h = pendingOperations s"
    and rest: "renderedBeforeEach as ?s1"
    by (simp_all add: renderedWith_def)
  have "a \<in> set (a # as)" by simp
  with Cons.prems(4) a have np: "\<not> p x" by fastforce
  from Cons.prems(1,2,3) rw have h1: "isOnline h" and h2: "distinct (map op_id (pendingOperations h))"
    and h3: "x \<in> set (pendingOperations h)" by simp_all
  have one: "filter (\<lambda>op. op_id op = op_id x) (pendingOperations ?s1) =
     (if retryCount x \<ge> 3 then [] else [x\<lparr> retryCount := retryCount x + 1 \<rparr>])"
    using processPendingOperations_one [OF h1 h2 h3, of p s] np
          filter_same_id [OF Cons.prems(2,3)]
    by simp
  show ?case
  proof (cases "retryCount x \<ge> 3")
    case True
    with one have "filter (\<lambda>op. op_id op = op_id x) (pendingOperations ?s1) = []" by simp
    then have "filter (\<lambda>op. op_id op = op_id x) (pendingOperations (runs as ?s1)) = []"
      by (rule runs_absent)
    with True a show ?thesis by simp
  next
    case False
    let ?x1 = "x\<lparr> retryCount := retryCount x + 1 \<rparr>"
    from one False have "?x1 \<in> set (filter (\<lambda>op. op_id op = op_id x) (pendingOperations ?s1))"
      by simp
    then have in1: "?x1 \<in> set (pendingOperations ?s1)" by simp
    have on1: "isOnline ?s1"
      using Cons.prems(1) by (simp add: processPendingOperations_isOnline)
    have di1: "distinct (map op_id (pendingOperations ?s1))"
      using Cons.prems(2) by (rule processPendingOperations_distinct)
    have fa1: "\<forall>b \<in> set as. \<forall>op. op_id op = op_id ?x1 \<longrightarrow> \<not> fst b op"
    proof (intro ballI allI impI)
      fix b and op :: "'d OfflineOperation"
      assume b: "b \<in> set as" and "op_id op = op_id ?x1"
      then have "op_id op = op_id x" by simp
      moreover from b have "b \<in> set (a # as)" by simp
      ultimately show "\<not> fst b op" using Cons.prems(4) by blast
    qed
    from Cons.IH [OF on1 di1 in1 fa1 rest] False a
    show ?thesis by (cases as) auto
  qed
qed




lemma drainLoop_succeeded_removed:
  "x \<in> set xs \<Longrightarrow> d x \<Longrightarrow>
   filter (\<lambda>op. op_id op = op_id x) (pendingOperations (fst (drainLoop d xs s))) = []"
proof (induction xs arbitrary: s)
  case Nil
  then show ?case by simp
next
  case (Cons y ys)
  show ?case
  proof (cases "x = y")
    case True
    with Cons.prems(2)
    have "filter (\<lambda>op. op_id op = op_id x) (pendingOperations (drainStep d y s)) = []"
      by (simp add: drainStep_same)
    then show ?thesis unfolding fst_drainLoop_Cons by (rule drainLoop_absent)
  next
    case False
    with Cons.prems(1) have "x \<in> set ys" by simp
    from Cons.IH [OF this Cons.prems(2)] show ?thesis unfolding fst_drainLoop_Cons .
  qed
qed

lemma drainLoop_remaining:
  fixes s :: "'d OfflineState"
  assumes "op \<in> set (pendingOperations (fst (drainLoop d xs s)))"
  shows "(\<exists>op' \<in> set (pendingOperations s). op_id op' = op_id op)
       \<and> (\<forall>x \<in> set xs. op_id x = op_id op \<longrightarrow> \<not> d x)"
proof
  from assms
  have present: "filter (\<lambda>x. op_id x = op_id op)
                   (pendingOperations (fst (drainLoop d xs s))) \<noteq> []"
    by (auto simp: filter_empty_conv)
  then have "filter (\<lambda>x. op_id x = op_id op) (pendingOperations s) \<noteq> []"
    using drainLoop_absent by blast
  then show "\<exists>op' \<in> set (pendingOperations s). op_id op' = op_id op"
    by (auto simp: filter_empty_conv)
  show "\<forall>x \<in> set xs. op_id x = op_id op \<longrightarrow> \<not> d x"
  proof (intro ballI impI notI)
    fix x :: "'d OfflineOperation"
    assume x: "x \<in> set xs" "op_id x = op_id op" "d x"
    from drainLoop_succeeded_removed [of x xs d s, OF x(1) x(3)] x(2) present
    show False by simp
  qed
qed

lemma processPendingOperations_remaining:
  fixes s :: "'d OfflineState"
  assumes "op \<in> set (pendingOperations (fst (processPendingOperations d h s)))"
  shows "(\<exists>op' \<in> set (pendingOperations s). op_id op' = op_id op)
       \<and> (isOnline h \<longrightarrow> (\<forall>x \<in> set (pendingOperations h). op_id x = op_id op \<longrightarrow> \<not> d x))"
proof (cases "isOnline h")
  case True
  with assms drainLoop_remaining [of op d "pendingOperations h" s]
  show ?thesis by (simp add: processPendingOperations_unfold)
next
  case False
  with assms show ?thesis by (auto simp: processPendingOperations_def)
qed

text \<open>
  With \<open>processOperation\<close> as the source has it no dispatch fails, and a run by a hook
  that rendered online with the queue of the store empties the queue.
\<close>

lemma processOperation_resolves: "processOperation operation"
  by (cases "op_type operation") simp_all

lemma processOperation_empties_queue:
  fixes s :: "'d OfflineState"
  assumes "isOnline h" and "pendingOperations h = pendingOperations s"
  shows "pendingOperations (fst (processPendingOperations processOperation h s)) = []"
proof (rule ccontr)
  assume "pendingOperations (fst (processPendingOperations processOperation h s)) \<noteq> []"
  then obtain op :: "'d OfflineOperation"
    where op: "op \<in> set (pendingOperations (fst (processPendingOperations processOperation h s)))"
    by (cases "pendingOperations (fst (processPendingOperations processOperation h s))") auto
  from processPendingOperations_remaining [OF op] assms
  obtain op' :: "'d OfflineOperation" where "\<not> processOperation op'" by auto
  then show False using processOperation_resolves by blast
qed

text \<open>
  C2, as the code has it. In any one drain by a hook that rendered online with distinct
  ids, a failed dispatch removes the operation from the store when the retry counter
  that the hook captured at render is 3 or more, and otherwise raises the counter in the
  store by one. When the queue of the store has distinct ids, the store is online and
  the component has re-rendered before each drain, an operation whose dispatch fails in
  each of \<open>n\<close> successive drains is still queued, with its counter raised by \<open>n\<close>, as
  long as the counter does not pass 3; the failed attempt that finds the counter at 3 or
  more removes the operation and does not increment. An operation enqueued with counter
  0 is therefore still queued, with counter 3, after three failed attempts and is
  removed by the fourth. An operation that is not in the queue is in the queue after no
  sequence of later drains, whatever their hooks rendered with.
\<close>

theorem retry_ceiling:
  fixes state :: "'d OfflineState"
  assumes "isOnline state"
    and "distinct (map op_id (pendingOperations state))"
    and "operation \<in> set (pendingOperations state)"
    and "\<forall>attempt \<in> set attempts. \<forall>op. op_id op = op_id operation \<longrightarrow> \<not> fst attempt op"
    and "renderedBeforeEach attempts state"
  shows "filter (\<lambda>op. op_id op = op_id operation) (pendingOperations (runs attempts state)) =
           (if attempts = [] \<or> retryCount operation + length attempts \<le> 3
            then [operation\<lparr> retryCount := retryCount operation + length attempts \<rparr>]
            else [])
       \<and> (\<forall>later. op_id operation \<notin> op_id ` set (pendingOperations (runs attempts state)) \<longrightarrow>
            op_id operation \<notin> op_id ` set (pendingOperations (runs later (runs attempts state))))
       \<and> (\<forall>dispatch hook captured. \<forall>store :: 'd OfflineState.
            isOnline hook \<longrightarrow> distinct (map op_id (pendingOperations hook)) \<longrightarrow>
            captured \<in> set (pendingOperations hook) \<longrightarrow> \<not> dispatch captured \<longrightarrow>
            filter (\<lambda>op. op_id op = op_id captured)
              (pendingOperations (fst (processPendingOperations dispatch hook store))) =
              (if retryCount captured \<ge> 3 then []
               else map (\<lambda>op. op\<lparr> retryCount := retryCount op + 1 \<rparr>)
                      (filter (\<lambda>op. op_id op = op_id captured) (pendingOperations store))))"
proof (intro conjI)
  show "filter (\<lambda>op. op_id op = op_id operation) (pendingOperations (runs attempts state)) =
           (if attempts = [] \<or> retryCount operation + length attempts \<le> 3
            then [operation\<lparr> retryCount := retryCount operation + length attempts \<rparr>]
            else [])"
    using assms by (rule runs_failing)
  show "\<forall>later. op_id operation \<notin> op_id ` set (pendingOperations (runs attempts state)) \<longrightarrow>
            op_id operation \<notin> op_id ` set (pendingOperations (runs later (runs attempts state)))"
    using runs_absent [of "op_id operation" "runs attempts state"]
    by (simp only: absent_iff) blast
  show "\<forall>dispatch hook captured. \<forall>store :: 'd OfflineState.
            isOnline hook \<longrightarrow> distinct (map op_id (pendingOperations hook)) \<longrightarrow>
            captured \<in> set (pendingOperations hook) \<longrightarrow> \<not> dispatch captured \<longrightarrow>
            filter (\<lambda>op. op_id op = op_id captured)
              (pendingOperations (fst (processPendingOperations dispatch hook store))) =
              (if retryCount captured \<ge> 3 then []
               else map (\<lambda>op. op\<lparr> retryCount := retryCount op + 1 \<rparr>)
                      (filter (\<lambda>op. op_id op = op_id captured) (pendingOperations store)))"
    by (intro allI impI) (simp add: processPendingOperations_one)
qed

theorem retry_ceiling_witness:
  "filter (\<lambda>op. op_id op = op_id exampleOperation)
     (pendingOperations
        (runs [(\<lambda>_. False, exampleStore True),
               (\<lambda>_. False, (exampleStore True)\<lparr> pendingOperations :=
                               [exampleOperation\<lparr> retryCount := 1 \<rparr>] \<rparr>),
               (\<lambda>_. False, (exampleStore True)\<lparr> pendingOperations :=
                               [exampleOperation\<lparr> retryCount := 2 \<rparr>] \<rparr>),
               (\<lambda>_. False, (exampleStore True)\<lparr> pendingOperations :=
                               [exampleOperation\<lparr> retryCount := 3 \<rparr>] \<rparr>)]
           (exampleStore True))) = []"
proof -
  let ?attempts = "[(\<lambda>_. False, exampleStore True),
               (\<lambda>_. False, (exampleStore True)\<lparr> pendingOperations :=
                               [exampleOperation\<lparr> retryCount := 1 \<rparr>] \<rparr>),
               (\<lambda>_. False, (exampleStore True)\<lparr> pendingOperations :=
                               [exampleOperation\<lparr> retryCount := 2 \<rparr>] \<rparr>),
               (\<lambda>_. False, (exampleStore True)\<lparr> pendingOperations :=
                               [exampleOperation\<lparr> retryCount := 3 \<rparr>] \<rparr>)]
      :: ((int OfflineOperation \<Rightarrow> bool) \<times> int OfflineState) list"
  have h1: "isOnline (exampleStore True)"
    and h2: "distinct (map op_id (pendingOperations (exampleStore True)))"
    and h3: "exampleOperation \<in> set (pendingOperations (exampleStore True))"
    by (simp_all add: exampleStore_def)
  have h4: "\<forall>attempt \<in> set ?attempts.
              \<forall>op :: int OfflineOperation. op_id op = op_id exampleOperation \<longrightarrow> \<not> fst attempt op"
    by simp
  have h5: "renderedBeforeEach ?attempts (exampleStore True)"
    by (simp add: renderedWith_def exampleStore_def exampleOperation_def
        processPendingOperations_def drainStep_def removePendingOperation_def
        incrementRetryCount_def)
  from retry_ceiling [OF h1 h2 h3 h4 h5]
  show ?thesis by (simp add: exampleOperation_def)
qed

theorem three_failed_attempts_counterexample:
  "renderedBeforeEach
     [(\<lambda>_. False, exampleStore True),
      (\<lambda>_. False, (exampleStore True)\<lparr> pendingOperations :=
                      [exampleOperation\<lparr> retryCount := 1 \<rparr>] \<rparr>),
      (\<lambda>_. False, (exampleStore True)\<lparr> pendingOperations :=
                      [exampleOperation\<lparr> retryCount := 2 \<rparr>] \<rparr>)]
     (exampleStore True)
   \<and> pendingOperations
       (runs [(\<lambda>_. False, exampleStore True),
              (\<lambda>_. False, (exampleStore True)\<lparr> pendingOperations :=
                              [exampleOperation\<lparr> retryCount := 1 \<rparr>] \<rparr>),
              (\<lambda>_. False, (exampleStore True)\<lparr> pendingOperations :=
                              [exampleOperation\<lparr> retryCount := 2 \<rparr>] \<rparr>)]
          (exampleStore True)) =
     [exampleOperation\<lparr> retryCount := 3 \<rparr>]
   \<and> retryCount exampleOperation = 0"
  by (simp add: renderedWith_def exampleStore_def exampleOperation_def
      processPendingOperations_def drainStep_def removePendingOperation_def
      incrementRetryCount_def)




section \<open>Properties of the task hooks\<close>

lemma getQueryData_setQueryData_same:
  "getQueryData (setQueryData now k (\<lambda>_. Some d) cache) k = Some d"
  by (simp add: getQueryData_def setQueryData_def)

lemma getQueryData_setQueryData_other:
  "k' \<noteq> k \<Longrightarrow> getQueryData (setQueryData now k updater cache) k' = getQueryData cache k'"
  by (simp add: getQueryData_def setQueryData_def split: option.splits)

lemma getQueryData_setQueriesData:
  "getQueryData (setQueriesData now updater cache) k =
     (case cache k of
        None \<Rightarrow> None
      | Some query \<Rightarrow> (case updater (data query) of None \<Rightarrow> data query | Some d \<Rightarrow> Some d))"
  by (simp add: getQueryData_def setQueriesData_def split: option.splits)

lemma getQueryData_invalidateQuery:
  "getQueryData (invalidateQuery k cache) k' = getQueryData cache k'"
  by (simp add: getQueryData_def invalidateQuery_def split: option.splits)

lemma getQueryData_invalidateQueries:
  "getQueryData (invalidateQueries cache) k = getQueryData cache k"
  by (simp add: getQueryData_def invalidateQueries_def split: option.splits)

lemma invalidateQuery_flag:
  "invalidateQuery k cache k = Some query \<Longrightarrow> isInvalidated query"
  by (auto simp: invalidateQuery_def split: option.splits)

lemma invalidateQueries_flag:
  "invalidateQueries cache k = Some query \<Longrightarrow> isInvalidated query"
  by (auto simp: invalidateQueries_def split: option.splits)

lemma useUpdateTask_failed:
  "fst (useUpdateTask now stamp now' i updates (Inl e) qc) =
     updateTask_rollback i (updateTask_optimistic now stamp i updates qc)"
  by (simp add: useUpdateTask_def withOptimisticUpdate_def)

lemma useCompleteTask_failed:
  "fst (useCompleteTask now stamp now' i (Inl e) qc) =
     completeTask_rollback i (completeTask_optimistic now stamp i qc)"
  by (simp add: useCompleteTask_def withOptimisticUpdate_def)

lemma useDeleteTask_failed:
  "fst (useDeleteTask now i (Inl e) qc) = deleteTask_rollback (deleteTask_optimistic now i qc)"
  by (simp add: useDeleteTask_def withOptimisticUpdate_def)

lemma updateTask_rollback_keeps_data:
  "getQueryData (taskDetails (updateTask_rollback i qc)) k = getQueryData (taskDetails qc) k"
  "getQueryData (taskLists (updateTask_rollback i qc)) l = getQueryData (taskLists qc) l"
  "taskDetails (updateTask_rollback i qc) i = Some q \<Longrightarrow> isInvalidated q"
  "taskLists (updateTask_rollback i qc) l = Some r \<Longrightarrow> isInvalidated r"
  by (simp_all add: updateTask_rollback_def getQueryData_invalidateQuery
      getQueryData_invalidateQueries invalidateQuery_flag invalidateQueries_flag)

lemma completeTask_rollback_keeps_data:
  "getQueryData (taskDetails (completeTask_rollback i qc)) k = getQueryData (taskDetails qc) k"
  "getQueryData (taskLists (completeTask_rollback i qc)) l = getQueryData (taskLists qc) l"
  "taskDetails (completeTask_rollback i qc) i = Some q \<Longrightarrow> isInvalidated q"
  "taskLists (completeTask_rollback i qc) l = Some r \<Longrightarrow> isInvalidated r"
  by (simp_all add: completeTask_rollback_def getQueryData_invalidateQuery
      getQueryData_invalidateQueries invalidateQuery_flag invalidateQueries_flag)

lemma deleteTask_rollback_keeps_data:
  "taskDetails (deleteTask_rollback qc) = taskDetails qc"
  "getQueryData (taskLists (deleteTask_rollback qc)) l = getQueryData (taskLists qc) l"
  "taskLists (deleteTask_rollback qc) l = Some r \<Longrightarrow> isInvalidated r"
  by (simp_all add: deleteTask_rollback_def getQueryData_invalidateQueries invalidateQueries_flag)

lemma applyOptimisticUpdate_default_rollback:
  assumes "getQueryData cache k = Some d"
  shows "getQueryData
           (snd (applyOptimisticUpdate now k updater None cache) now'
              (fst (applyOptimisticUpdate now k updater None cache))) k' =
         getQueryData cache k'"
proof (cases "k' = k")
  case True
  with assms show ?thesis
    by (simp add: applyOptimisticUpdate_def getQueryData_setQueryData_same)
next
  case False
  with assms show ?thesis
    by (simp add: applyOptimisticUpdate_def getQueryData_setQueryData_other)
qed

text \<open>
  C1, as the code has it: when the call of an update, a completion or a deletion fails,
  the rollback function of the hook does not write the snapshot back. It leaves the
  data of every detail and list query as the optimistic change left it, and marks as
  invalidated every list query and (update, completion) the detail query of the task,
  which are then fetched again from the server. The rollback that writes the value of
  before the change back is the default one of \<open>applyOptimisticUpdate\<close> (no rollback
  argument): when the key had data before the change, the data of every key is
  afterwards what it was before.
\<close>

theorem rollback_invalidates_and_keeps_optimistic_data:
  "(\<forall>k l. getQueryData (taskDetails (fst (useUpdateTask now stamp now' i updates (Inl e) qc))) k =
            getQueryData (taskDetails (updateTask_optimistic now stamp i updates qc)) k
        \<and> getQueryData (taskLists (fst (useUpdateTask now stamp now' i updates (Inl e) qc))) l =
            getQueryData (taskLists (updateTask_optimistic now stamp i updates qc)) l)
   \<and> (\<forall>q. taskDetails (fst (useUpdateTask now stamp now' i updates (Inl e) qc)) i = Some q \<longrightarrow>
          isInvalidated q)
   \<and> (\<forall>l r. taskLists (fst (useUpdateTask now stamp now' i updates (Inl e) qc)) l = Some r \<longrightarrow>
          isInvalidated r)
   \<and> (\<forall>k l. getQueryData (taskDetails (fst (useCompleteTask now stamp now' i (Inl e) qc))) k =
            getQueryData (taskDetails (completeTask_optimistic now stamp i qc)) k
        \<and> getQueryData (taskLists (fst (useCompleteTask now stamp now' i (Inl e) qc))) l =
            getQueryData (taskLists (completeTask_optimistic now stamp i qc)) l)
   \<and> (\<forall>q. taskDetails (fst (useCompleteTask now stamp now' i (Inl e) qc)) i = Some q \<longrightarrow>
          isInvalidated q)
   \<and> (\<forall>l r. taskLists (fst (useCompleteTask now stamp now' i (Inl e) qc)) l = Some r \<longrightarrow>
          isInvalidated r)
   \<and> taskDetails (fst (useDeleteTask now i (Inl e) qc)) =
       taskDetails (deleteTask_optimistic now i qc)
   \<and> (\<forall>l. getQueryData (taskLists (fst (useDeleteTask now i (Inl e) qc))) l =
            getQueryData (taskLists (deleteTask_optimistic now i qc)) l)
   \<and> (\<forall>l r. taskLists (fst (useDeleteTask now i (Inl e) qc)) l = Some r \<longrightarrow> isInvalidated r)
   \<and> (\<forall>d. getQueryData cache key = Some d \<longrightarrow>
        (\<forall>key'. getQueryData
                  (snd (applyOptimisticUpdate now key updater None cache) now'
                     (fst (applyOptimisticUpdate now key updater None cache))) key' =
                getQueryData cache key'))"
proof -
  have u: "(\<forall>k l. getQueryData (taskDetails (fst (useUpdateTask now stamp now' i updates (Inl e) qc))) k =
            getQueryData (taskDetails (updateTask_optimistic now stamp i updates qc)) k
        \<and> getQueryData (taskLists (fst (useUpdateTask now stamp now' i updates (Inl e) qc))) l =
            getQueryData (taskLists (updateTask_optimistic now stamp i updates qc)) l)
   \<and> (\<forall>q. taskDetails (fst (useUpdateTask now stamp now' i updates (Inl e) qc)) i = Some q \<longrightarrow>
          isInvalidated q)
   \<and> (\<forall>l r. taskLists (fst (useUpdateTask now stamp now' i updates (Inl e) qc)) l = Some r \<longrightarrow>
          isInvalidated r)"
    unfolding useUpdateTask_failed
    using updateTask_rollback_keeps_data by blast
  have c: "(\<forall>k l. getQueryData (taskDetails (fst (useCompleteTask now stamp now' i (Inl e) qc))) k =
            getQueryData (taskDetails (completeTask_optimistic now stamp i qc)) k
        \<and> getQueryData (taskLists (fst (useCompleteTask now stamp now' i (Inl e) qc))) l =
            getQueryData (taskLists (completeTask_optimistic now stamp i qc)) l)
   \<and> (\<forall>q. taskDetails (fst (useCompleteTask now stamp now' i (Inl e) qc)) i = Some q \<longrightarrow>
          isInvalidated q)
   \<and> (\<forall>l r. taskLists (fst (useCompleteTask now stamp now' i (Inl e) qc)) l = Some r \<longrightarrow>
          isInvalidated r)"
    unfolding useCompleteTask_failed
    using completeTask_rollback_keeps_data by blast
  have d: "taskDetails (fst (useDeleteTask now i (Inl e) qc)) =
       taskDetails (deleteTask_optimistic now i qc)
   \<and> (\<forall>l. getQueryData (taskLists (fst (useDeleteTask now i (Inl e) qc))) l =
            getQueryData (taskLists (deleteTask_optimistic now i qc)) l)
   \<and> (\<forall>l r. taskLists (fst (useDeleteTask now i (Inl e) qc)) l = Some r \<longrightarrow> isInvalidated r)"
    unfolding useDeleteTask_failed
    using deleteTask_rollback_keeps_data by blast
  have a: "\<forall>d. getQueryData cache key = Some d \<longrightarrow>
        (\<forall>key'. getQueryData
                  (snd (applyOptimisticUpdate now key updater None cache) now'
                     (fst (applyOptimisticUpdate now key updater None cache))) key' =
                getQueryData cache key')"
    by (intro allI impI) (rule applyOptimisticUpdate_default_rollback)
  from u c d a show ?thesis by blast
qed

theorem rollback_witness:
  "getQueryData
     (taskLists (fst (useCompleteTask 2000 ''2024-01-02T08:00:00.000Z'' 3000 7
                        (Inl exampleError) exampleClient))) exampleListKey =
     Some (exampleList\<lparr> items :=
             [exampleTask\<lparr> status := COMPLETED, updated_at := ''2024-01-02T08:00:00.000Z'' \<rparr>] \<rparr>)
   \<and> getQueryData
       (snd (applyOptimisticUpdate 2000 7 (\<lambda>_. exampleServerTask) None (taskDetails exampleClient))
          3000
          (fst (applyOptimisticUpdate 2000 7 (\<lambda>_. exampleServerTask) None
                  (taskDetails exampleClient)))) 7 =
     Some exampleTask"
proof -
  note inst = rollback_invalidates_and_keeps_optimistic_data
      [of 2000 "''2024-01-02T08:00:00.000Z''" 3000 7 exampleUpdate exampleError exampleClient
          "taskDetails exampleClient" 7 "\<lambda>_. exampleServerTask"]
  have pre: "getQueryData (taskDetails exampleClient) 7 = Some exampleTask"
    by (simp add: exampleClient_def getQueryData_def)
  from inst have
    "getQueryData
       (taskLists (fst (useCompleteTask 2000 ''2024-01-02T08:00:00.000Z'' 3000 7
                          (Inl exampleError) exampleClient))) exampleListKey =
     getQueryData
       (taskLists (completeTask_optimistic 2000 ''2024-01-02T08:00:00.000Z'' 7 exampleClient))
       exampleListKey"
    by blast
  moreover have
    "getQueryData
       (taskLists (completeTask_optimistic 2000 ''2024-01-02T08:00:00.000Z'' 7 exampleClient))
       exampleListKey =
     Some (exampleList\<lparr> items :=
             [exampleTask\<lparr> status := COMPLETED, updated_at := ''2024-01-02T08:00:00.000Z'' \<rparr>] \<rparr>)"
    by (simp add: completeTask_optimistic_def pre Let_def getQueryData_setQueriesData)
       (simp add: exampleClient_def exampleClientList_def exampleList_def exampleTask_def)
  moreover from inst pre have
    "getQueryData
       (snd (applyOptimisticUpdate 2000 7 (\<lambda>_. exampleServerTask) None (taskDetails exampleClient))
          3000
          (fst (applyOptimisticUpdate 2000 7 (\<lambda>_. exampleServerTask) None
                  (taskDetails exampleClient)))) 7 =
     getQueryData (taskDetails exampleClient) 7"
    by blast
  ultimately show ?thesis using pre by simp
qed

theorem rollback_restores_snapshot_counterexample:
  "getQueryData (taskDetails exampleClient) 7 = Some exampleTask
   \<and> getQueryData
       (taskDetails (fst (useUpdateTask 2000 ''2024-01-02T08:00:00.000Z'' 3000 7 exampleUpdate
                            (Inl exampleError) exampleClient))) 7 =
     Some (exampleTask\<lparr> status := COMPLETED, updated_at := ''2024-01-02T08:00:00.000Z'' \<rparr>)
   \<and> fst (useUpdateTask 2000 ''2024-01-02T08:00:00.000Z'' 3000 7 exampleUpdate
            (Inl exampleError) exampleClient) \<noteq> exampleClient"
proof -
  have pre: "getQueryData (taskDetails exampleClient) 7 = Some exampleTask"
    by (simp add: exampleClient_def getQueryData_def)
  have post: "getQueryData
       (taskDetails (fst (useUpdateTask 2000 ''2024-01-02T08:00:00.000Z'' 3000 7 exampleUpdate
                            (Inl exampleError) exampleClient))) 7 =
     Some (exampleTask\<lparr> status := COMPLETED, updated_at := ''2024-01-02T08:00:00.000Z'' \<rparr>)"
    by (simp add: useUpdateTask_failed updateTask_rollback_keeps_data updateTask_optimistic_def
        pre Let_def getQueryData_setQueryData_same)
       (simp add: spreadUpdates_def exampleUpdate_def exampleTask_def)
  have "fst (useUpdateTask 2000 ''2024-01-02T08:00:00.000Z'' 3000 7 exampleUpdate
            (Inl exampleError) exampleClient) \<noteq> exampleClient"
  proof
    assume "fst (useUpdateTask 2000 ''2024-01-02T08:00:00.000Z'' 3000 7 exampleUpdate
            (Inl exampleError) exampleClient) = exampleClient"
    with pre post
    have "exampleTask\<lparr> status := COMPLETED, updated_at := ''2024-01-02T08:00:00.000Z'' \<rparr> =
          exampleTask" by simp
    then have "status (exampleTask\<lparr> status := COMPLETED,
                 updated_at := ''2024-01-02T08:00:00.000Z'' \<rparr>) = status exampleTask"
      by simp
    then show False by (simp add: exampleTask_def)
  qed
  with pre post show ?thesis by blast
qed

text \<open>
  Where the optimistic functions do apply the change: \<open>useUpdateTask\<close> changes the task
  in every cached list, and the detail query when it has data; \<open>useCompleteTask\<close>
  changes both when the detail query has data.
\<close>

lemma getQueryData_setQueriesData_Some:
  assumes "getQueryData cache l = Some r" and "updater (Some r) = Some r'"
  shows "getQueryData (setQueriesData now updater cache) l = Some r'"
proof -
  from assms(1) obtain q where "cache l = Some q" "data q = Some r"
    by (auto simp: getQueryData_def split: option.splits)
  with assms(2) show ?thesis by (simp add: getQueryData_setQueriesData)
qed

lemma updateTask_optimistic_lists:
  assumes "getQueryData (taskLists qc) l = Some r"
  shows "getQueryData (taskLists (updateTask_optimistic now stamp i updates qc)) l =
     Some (r\<lparr> items :=
       map (\<lambda>task. if task_id task = i then (spreadUpdates task updates)\<lparr> updated_at := stamp \<rparr>
                    else task) (items r) \<rparr>)"
proof -
  have "taskLists (updateTask_optimistic now stamp i updates qc) =
      setQueriesData now
        (\<lambda>old. case old of
                 None \<Rightarrow> None
               | Some r \<Rightarrow>
                   Some (r\<lparr> items :=
                     map (\<lambda>task. if task_id task = i
                                  then (spreadUpdates task updates)\<lparr> updated_at := stamp \<rparr>
                                  else task) (items r) \<rparr>))
        (taskLists qc)"
    by (simp add: updateTask_optimistic_def Let_def split: option.splits)
  with assms show ?thesis by (simp add: getQueryData_setQueriesData_Some)
qed

lemma updateTask_optimistic_detail:
  assumes "getQueryData (taskDetails qc) i = Some previousTask"
  shows "getQueryData (taskDetails (updateTask_optimistic now stamp i updates qc)) i =
     Some ((spreadUpdates previousTask updates)\<lparr> updated_at := stamp \<rparr>)"
  using assms
  by (simp add: updateTask_optimistic_def Let_def getQueryData_setQueryData_same)

lemma completeTask_optimistic_detail:
  assumes "getQueryData (taskDetails qc) i = Some previousTask"
  shows "getQueryData (taskDetails (completeTask_optimistic now stamp i qc)) i =
           Some (previousTask\<lparr> status := COMPLETED, updated_at := stamp \<rparr>)"
  using assms
  by (simp add: completeTask_optimistic_def Let_def getQueryData_setQueryData_same)

lemma completeTask_optimistic_lists:
  assumes "getQueryData (taskDetails qc) i = Some previousTask"
    and "getQueryData (taskLists qc) l = Some r"
  shows "getQueryData (taskLists (completeTask_optimistic now stamp i qc)) l =
           Some (r\<lparr> items :=
             map (\<lambda>task. if task_id task = i
                          then previousTask\<lparr> status := COMPLETED, updated_at := stamp \<rparr>
                          else task) (items r) \<rparr>)"
proof -
  from assms(1)
  have "taskLists (completeTask_optimistic now stamp i qc) =
      setQueriesData now
        (\<lambda>old. case old of
                 None \<Rightarrow> None
               | Some r \<Rightarrow>
                   Some (r\<lparr> items :=
                     map (\<lambda>task. if task_id task = i
                                  then previousTask\<lparr> status := COMPLETED, updated_at := stamp \<rparr>
                                  else task) (items r) \<rparr>))
        (taskLists qc)"
    by (simp add: completeTask_optimistic_def Let_def)
  with assms(2) show ?thesis by (simp add: getQueryData_setQueriesData_Some)
qed

text \<open>
  C4 at a cache that holds the task in a list query and has no detail query for it: the
  optimistic function of \<open>useCompleteTask\<close> returns the cache as it is, so the list
  still holds the task with the status \<open>PENDING\<close> and its old \<open>updated_at\<close>, while the
  optimistic function of \<open>useUpdateTask\<close> with the update \<open>{ status: 'COMPLETED' }\<close>
  changes the task in the list.
\<close>

theorem completeTask_optimistic_without_detail:
  "completeTask_optimistic 2000 ''2024-01-02T08:00:00.000Z'' 7 exampleClientList = exampleClientList
   \<and> getQueryData (taskDetails exampleClientList) 7 = None
   \<and> getQueryData
       (taskLists (completeTask_optimistic 2000 ''2024-01-02T08:00:00.000Z'' 7 exampleClientList))
       exampleListKey = Some exampleList
   \<and> map task_id (items exampleList) = [7]
   \<and> map status (items exampleList) = [PENDING]
   \<and> getQueryData
       (taskLists (updateTask_optimistic 2000 ''2024-01-02T08:00:00.000Z'' 7 exampleUpdate
                     exampleClientList))
       exampleListKey =
     Some (exampleList\<lparr> items :=
             [exampleTask\<lparr> status := COMPLETED, updated_at := ''2024-01-02T08:00:00.000Z'' \<rparr>] \<rparr>)"
proof -
  have none: "getQueryData (taskDetails exampleClientList) 7 = None"
    by (simp add: exampleClientList_def getQueryData_def)
  then have same: "completeTask_optimistic 2000 ''2024-01-02T08:00:00.000Z'' 7 exampleClientList =
      exampleClientList"
    by (simp add: completeTask_optimistic_def)
  have list: "getQueryData (taskLists exampleClientList) exampleListKey = Some exampleList"
    by (simp add: exampleClientList_def getQueryData_def)
  have ex: "map task_id (items exampleList) = [7]" "map status (items exampleList) = [PENDING]"
    by (simp_all add: exampleList_def exampleTask_def)
  have upd: "getQueryData
       (taskLists (updateTask_optimistic 2000 ''2024-01-02T08:00:00.000Z'' 7 exampleUpdate
                     exampleClientList))
       exampleListKey =
     Some (exampleList\<lparr> items :=
             [exampleTask\<lparr> status := COMPLETED, updated_at := ''2024-01-02T08:00:00.000Z'' \<rparr>] \<rparr>)"
    by (simp add: updateTask_optimistic_def none Let_def getQueryData_setQueriesData)
       (simp add: exampleClientList_def exampleList_def exampleTask_def spreadUpdates_def
          exampleUpdate_def)
  from none same list ex upd show ?thesis by simp
qed

lemma mutation_succeeded:
  "fst (useUpdateTask now stamp now' i updates (Inr t) qc) =
     updateTask_onSuccess now' t (updateTask_optimistic now stamp i updates qc)"
  "fst (useCompleteTask now stamp now' i (Inr t) qc) =
     completeTask_onSuccess now' t (completeTask_optimistic now stamp i qc)"
  "fst (useCreateTask now' (Inr t) qc) = createTask_onSuccess now' t qc"
  by (simp_all add: useUpdateTask_def useCompleteTask_def useCreateTask_def
      withOptimisticUpdate_def)

lemma getQueryData_setQueriesData_map:
  "getQueryData
     (setQueriesData now (\<lambda>old. case old of None \<Rightarrow> None | Some r \<Rightarrow> Some (g r)) cache) l =
   map_option g (getQueryData cache l)"
  by (simp add: getQueryData_def setQueriesData_def split: option.splits)

lemma getQueryData_setQueryData_value:
  "getQueryData (setQueryData now k (\<lambda>_. Some d) cache) k' =
     (if k' = k then Some d else getQueryData cache k')"
  by (simp add: getQueryData_setQueryData_same getQueryData_setQueryData_other)

lemma task_id_spreadUpdates: "task_id (spreadUpdates task updates) = task_id task"
  by (simp add: spreadUpdates_def)

lemma onSuccess_data:
  "getQueryData (taskDetails (updateTask_onSuccess now t qc)) k =
     (if k = task_id t then Some t else getQueryData (taskDetails qc) k)"
  "getQueryData (taskLists (updateTask_onSuccess now t qc)) l =
     map_option
       (\<lambda>r. r\<lparr> items := map (\<lambda>task. if task_id task = task_id t then t else task) (items r) \<rparr>)
       (getQueryData (taskLists qc) l)"
  "getQueryData (taskDetails (completeTask_onSuccess now t qc)) k =
     (if k = task_id t then Some t else getQueryData (taskDetails qc) k)"
  "getQueryData (taskLists (completeTask_onSuccess now t qc)) l =
     map_option
       (\<lambda>r. r\<lparr> items := map (\<lambda>task. if task_id task = task_id t then t else task) (items r) \<rparr>)
       (getQueryData (taskLists qc) l)"
  by (simp_all add: updateTask_onSuccess_def completeTask_onSuccess_def
      getQueryData_setQueryData_value getQueryData_setQueriesData_map)

lemma updateTask_optimistic_data:
  "getQueryData (taskDetails (updateTask_optimistic now stamp i updates qc)) k =
     (if k = i
      then map_option (\<lambda>p. (spreadUpdates p updates)\<lparr> updated_at := stamp \<rparr>)
             (getQueryData (taskDetails qc) i)
      else getQueryData (taskDetails qc) k)"
  "getQueryData (taskLists (updateTask_optimistic now stamp i updates qc)) l =
     map_option
       (\<lambda>r. r\<lparr> items :=
          map (\<lambda>task. if task_id task = i then (spreadUpdates task updates)\<lparr> updated_at := stamp \<rparr>
                       else task) (items r) \<rparr>)
       (getQueryData (taskLists qc) l)"
  by (simp_all add: updateTask_optimistic_def Let_def getQueryData_setQueryData_value
      getQueryData_setQueriesData_map split: option.splits)

lemma completeTask_optimistic_data:
  "getQueryData (taskDetails (completeTask_optimistic now stamp i qc)) k =
     (if k = i
      then map_option (\<lambda>p. p\<lparr> status := COMPLETED, updated_at := stamp \<rparr>)
             (getQueryData (taskDetails qc) i)
      else getQueryData (taskDetails qc) k)"
  "getQueryData (taskLists (completeTask_optimistic now stamp i qc)) l =
     (case getQueryData (taskDetails qc) i of
        None \<Rightarrow> getQueryData (taskLists qc) l
      | Some p \<Rightarrow>
          map_option
            (\<lambda>r. r\<lparr> items :=
               map (\<lambda>task. if task_id task = i then p\<lparr> status := COMPLETED, updated_at := stamp \<rparr>
                            else task) (items r) \<rparr>)
            (getQueryData (taskLists qc) l))"
  by (simp_all add: completeTask_optimistic_def Let_def getQueryData_setQueryData_value
      getQueryData_setQueriesData_map split: option.splits)

lemma replace_after_change:
  assumes "task_id c = i"
  shows "map (\<lambda>task. if task_id task = i then t else task)
           (map (\<lambda>task. if task_id task = i then c else task) xs) =
         map (\<lambda>task. if task_id task = i then t else (task :: Task)) xs"
  using assms by (induction xs) simp_all

lemma replace_after_update:
  "map (\<lambda>task. if task_id task = i then t else task)
     (map (\<lambda>task. if task_id task = i then (spreadUpdates task updates)\<lparr> updated_at := stamp \<rparr>
                  else task) xs) =
   map (\<lambda>task. if task_id task = i then t else task) xs"
  by (induction xs) (simp_all add: task_id_spreadUpdates)

lemma useUpdateTask_succeeded_lists:
  assumes "task_id t = i"
  shows "getQueryData (taskLists (fst (useUpdateTask now stamp now' i updates (Inr t) qc))) l =
     map_option (\<lambda>r. r\<lparr> items := map (\<lambda>task. if task_id task = i then t else task) (items r) \<rparr>)
       (getQueryData (taskLists qc) l)"
  using assms replace_after_update [where i = i and t = t and updates = updates and stamp = stamp]
  by (cases "getQueryData (taskLists qc) l")
     (simp_all add: mutation_succeeded onSuccess_data updateTask_optimistic_data)

lemma useCompleteTask_succeeded_lists:
  assumes "task_id t = i"
    and "\<forall>p. getQueryData (taskDetails qc) i = Some p \<longrightarrow> task_id p = i"
  shows "getQueryData (taskLists (fst (useCompleteTask now stamp now' i (Inr t) qc))) l =
     map_option (\<lambda>r. r\<lparr> items := map (\<lambda>task. if task_id task = i then t else task) (items r) \<rparr>)
       (getQueryData (taskLists qc) l)"
proof (cases "getQueryData (taskDetails qc) i")
  case None
  with assms(1) show ?thesis
    by (simp add: mutation_succeeded onSuccess_data completeTask_optimistic_data)
next
  case (Some p)
  with assms(2) have "task_id (p\<lparr> status := COMPLETED, updated_at := stamp \<rparr>) = i" by simp
  from replace_after_change [OF this] Some assms(1) show ?thesis
    by (cases "getQueryData (taskLists qc) l")
       (simp_all add: mutation_succeeded onSuccess_data completeTask_optimistic_data)
qed

lemma createTask_onSuccess_data:
  "getQueryData (taskDetails (createTask_onSuccess now t qc)) k =
     (if k = task_id t then Some t else getQueryData (taskDetails qc) k)"
  "getQueryData (taskLists (createTask_onSuccess now t qc)) l = getQueryData (taskLists qc) l"
  "taskLists (createTask_onSuccess now t qc) l = Some r \<Longrightarrow> isInvalidated r"
  by (simp_all add: createTask_onSuccess_def getQueryData_setQueryData_value
      getQueryData_invalidateQueries invalidateQueries_flag)

text \<open>
  C5, as the code has it. When an update or a completion of the task \<open>i\<close> resolves with
  the server's task \<open>t\<close>, the cache holds \<open>t\<close> itself under the detail key of the id of
  \<open>t\<close>, and every cached list is the list that the optimistic step left with every
  element that has the id of \<open>t\<close> replaced by \<open>t\<close> itself, all other elements and members
  kept. When the id of \<open>t\<close> is \<open>i\<close> (and, for a completion, the detail query of \<open>i\<close>
  holds no task with another id), the data of the cache is the data of before the
  mutation with \<open>t\<close> under the detail key \<open>i\<close> and \<open>t\<close> in the place of every list element
  with the id \<open>i\<close>: nothing of the optimistic values is left, and nothing is merged. When
  a creation resolves with \<open>t\<close>, the cache holds \<open>t\<close> under the detail key of its id;
  \<open>t\<close> is written into no cached list: the lists keep their data and are marked as
  invalidated.
\<close>

theorem server_response_supersedes_optimistic:
  "(\<forall>k. getQueryData (taskDetails (fst (useUpdateTask now stamp now' i updates (Inr t) qc))) k =
          (if k = task_id t then Some t
           else getQueryData (taskDetails (updateTask_optimistic now stamp i updates qc)) k))
   \<and> (\<forall>l. getQueryData (taskLists (fst (useUpdateTask now stamp now' i updates (Inr t) qc))) l =
          map_option
            (\<lambda>r. r\<lparr> items :=
               map (\<lambda>task. if task_id task = task_id t then t else task) (items r) \<rparr>)
            (getQueryData (taskLists (updateTask_optimistic now stamp i updates qc)) l))
   \<and> (task_id t = i \<longrightarrow>
        (\<forall>k. getQueryData (taskDetails (fst (useUpdateTask now stamp now' i updates (Inr t) qc))) k =
              (if k = i then Some t else getQueryData (taskDetails qc) k))
      \<and> (\<forall>l. getQueryData (taskLists (fst (useUpdateTask now stamp now' i updates (Inr t) qc))) l =
              map_option
                (\<lambda>r. r\<lparr> items := map (\<lambda>task. if task_id task = i then t else task) (items r) \<rparr>)
                (getQueryData (taskLists qc) l)))
   \<and> (\<forall>k. getQueryData (taskDetails (fst (useCompleteTask now stamp now' i (Inr t) qc))) k =
          (if k = task_id t then Some t
           else getQueryData (taskDetails (completeTask_optimistic now stamp i qc)) k))
   \<and> (\<forall>l. getQueryData (taskLists (fst (useCompleteTask now stamp now' i (Inr t) qc))) l =
          map_option
            (\<lambda>r. r\<lparr> items :=
               map (\<lambda>task. if task_id task = task_id t then t else task) (items r) \<rparr>)
            (getQueryData (taskLists (completeTask_optimistic now stamp i qc)) l))
   \<and> (task_id t = i \<longrightarrow> (\<forall>p. getQueryData (taskDetails qc) i = Some p \<longrightarrow> task_id p = i) \<longrightarrow>
        (\<forall>k. getQueryData (taskDetails (fst (useCompleteTask now stamp now' i (Inr t) qc))) k =
              (if k = i then Some t else getQueryData (taskDetails qc) k))
      \<and> (\<forall>l. getQueryData (taskLists (fst (useCompleteTask now stamp now' i (Inr t) qc))) l =
              map_option
                (\<lambda>r. r\<lparr> items := map (\<lambda>task. if task_id task = i then t else task) (items r) \<rparr>)
                (getQueryData (taskLists qc) l)))
   \<and> (\<forall>k. getQueryData (taskDetails (fst (useCreateTask now' (Inr t) qc))) k =
          (if k = task_id t then Some t else getQueryData (taskDetails qc) k))
   \<and> (\<forall>l. getQueryData (taskLists (fst (useCreateTask now' (Inr t) qc))) l =
          getQueryData (taskLists qc) l)
   \<and> (\<forall>l r. taskLists (fst (useCreateTask now' (Inr t) qc)) l = Some r \<longrightarrow> isInvalidated r)"
proof -
  have u1: "\<forall>k. getQueryData (taskDetails (fst (useUpdateTask now stamp now' i updates (Inr t) qc))) k =
          (if k = task_id t then Some t
           else getQueryData (taskDetails (updateTask_optimistic now stamp i updates qc)) k)"
    by (simp add: mutation_succeeded onSuccess_data)
  have u2: "\<forall>l. getQueryData (taskLists (fst (useUpdateTask now stamp now' i updates (Inr t) qc))) l =
          map_option
            (\<lambda>r. r\<lparr> items :=
               map (\<lambda>task. if task_id task = task_id t then t else task) (items r) \<rparr>)
            (getQueryData (taskLists (updateTask_optimistic now stamp i updates qc)) l)"
    by (simp add: mutation_succeeded onSuccess_data)
  have u3: "task_id t = i \<longrightarrow>
        (\<forall>k. getQueryData (taskDetails (fst (useUpdateTask now stamp now' i updates (Inr t) qc))) k =
              (if k = i then Some t else getQueryData (taskDetails qc) k))
      \<and> (\<forall>l. getQueryData (taskLists (fst (useUpdateTask now stamp now' i updates (Inr t) qc))) l =
              map_option
                (\<lambda>r. r\<lparr> items := map (\<lambda>task. if task_id task = i then t else task) (items r) \<rparr>)
                (getQueryData (taskLists qc) l))"
  proof (intro impI conjI allI)
    fix k l
    assume id: "task_id t = i"
    show "getQueryData (taskDetails (fst (useUpdateTask now stamp now' i updates (Inr t) qc))) k =
              (if k = i then Some t else getQueryData (taskDetails qc) k)"
      using id by (simp add: mutation_succeeded onSuccess_data updateTask_optimistic_data)
    show "getQueryData (taskLists (fst (useUpdateTask now stamp now' i updates (Inr t) qc))) l =
              map_option
                (\<lambda>r. r\<lparr> items := map (\<lambda>task. if task_id task = i then t else task) (items r) \<rparr>)
                (getQueryData (taskLists qc) l)"
      using id by (rule useUpdateTask_succeeded_lists)
  qed
  have c1: "\<forall>k. getQueryData (taskDetails (fst (useCompleteTask now stamp now' i (Inr t) qc))) k =
          (if k = task_id t then Some t
           else getQueryData (taskDetails (completeTask_optimistic now stamp i qc)) k)"
    by (simp add: mutation_succeeded onSuccess_data)
  have c2: "\<forall>l. getQueryData (taskLists (fst (useCompleteTask now stamp now' i (Inr t) qc))) l =
          map_option
            (\<lambda>r. r\<lparr> items :=
               map (\<lambda>task. if task_id task = task_id t then t else task) (items r) \<rparr>)
            (getQueryData (taskLists (completeTask_optimistic now stamp i qc)) l)"
    by (simp add: mutation_succeeded onSuccess_data)
  have c3: "task_id t = i \<longrightarrow> (\<forall>p. getQueryData (taskDetails qc) i = Some p \<longrightarrow> task_id p = i) \<longrightarrow>
        (\<forall>k. getQueryData (taskDetails (fst (useCompleteTask now stamp now' i (Inr t) qc))) k =
              (if k = i then Some t else getQueryData (taskDetails qc) k))
      \<and> (\<forall>l. getQueryData (taskLists (fst (useCompleteTask now stamp now' i (Inr t) qc))) l =
              map_option
                (\<lambda>r. r\<lparr> items := map (\<lambda>task. if task_id task = i then t else task) (items r) \<rparr>)
                (getQueryData (taskLists qc) l))"
  proof (intro impI conjI allI)
    fix k l
    assume id: "task_id t = i"
      and det: "\<forall>p. getQueryData (taskDetails qc) i = Some p \<longrightarrow> task_id p = i"
    show "getQueryData (taskDetails (fst (useCompleteTask now stamp now' i (Inr t) qc))) k =
              (if k = i then Some t else getQueryData (taskDetails qc) k)"
      using id by (simp add: mutation_succeeded onSuccess_data completeTask_optimistic_data)
    show "getQueryData (taskLists (fst (useCompleteTask now stamp now' i (Inr t) qc))) l =
              map_option
                (\<lambda>r. r\<lparr> items := map (\<lambda>task. if task_id task = i then t else task) (items r) \<rparr>)
                (getQueryData (taskLists qc) l)"
      using id det by (rule useCompleteTask_succeeded_lists)
  qed
  have n: "(\<forall>k. getQueryData (taskDetails (fst (useCreateTask now' (Inr t) qc))) k =
          (if k = task_id t then Some t else getQueryData (taskDetails qc) k))
   \<and> (\<forall>l. getQueryData (taskLists (fst (useCreateTask now' (Inr t) qc))) l =
          getQueryData (taskLists qc) l)
   \<and> (\<forall>l r. taskLists (fst (useCreateTask now' (Inr t) qc)) l = Some r \<longrightarrow> isInvalidated r)"
    unfolding mutation_succeeded
    using createTask_onSuccess_data [of now' t qc] by blast
  from u1 u2 u3 c1 c2 c3 n show ?thesis by (intro conjI) blast+
qed

theorem server_response_witness:
  "getQueryData
     (taskDetails (fst (useUpdateTask 2000 ''2024-01-02T08:00:00.000Z'' 3000 7 exampleUpdate
                          (Inr exampleServerTask) exampleClient))) 7 = Some exampleServerTask
   \<and> getQueryData
       (taskLists (fst (useUpdateTask 2000 ''2024-01-02T08:00:00.000Z'' 3000 7 exampleUpdate
                          (Inr exampleServerTask) exampleClient))) exampleListKey =
     Some (exampleList\<lparr> items := [exampleServerTask] \<rparr>)
   \<and> updated_at exampleServerTask \<noteq> ''2024-01-02T08:00:00.000Z''"
proof -
  have id: "task_id exampleServerTask = 7"
    by (simp add: exampleServerTask_def exampleTask_def)
  have pre: "getQueryData (taskLists exampleClient) exampleListKey = Some exampleList"
    by (simp add: exampleClient_def exampleClientList_def getQueryData_def)
  have it: "map (\<lambda>task. if task_id task = 7 then exampleServerTask else task) (items exampleList) =
            [exampleServerTask]"
    by (simp add: exampleList_def exampleTask_def)
  from server_response_supersedes_optimistic
         [of 2000 "''2024-01-02T08:00:00.000Z''" 3000 7 exampleUpdate exampleServerTask exampleClient]
       id
  have "(\<forall>k. getQueryData
               (taskDetails (fst (useUpdateTask 2000 ''2024-01-02T08:00:00.000Z'' 3000 7
                      exampleUpdate (Inr exampleServerTask) exampleClient))) k =
              (if k = 7 then Some exampleServerTask else getQueryData (taskDetails exampleClient) k))
      \<and> (\<forall>l. getQueryData
               (taskLists (fst (useUpdateTask 2000 ''2024-01-02T08:00:00.000Z'' 3000 7
                      exampleUpdate (Inr exampleServerTask) exampleClient))) l =
              map_option
                (\<lambda>r. r\<lparr> items := map (\<lambda>task. if task_id task = 7 then exampleServerTask else task)
                                     (items r) \<rparr>)
                (getQueryData (taskLists exampleClient) l))"
    by blast
  then have "getQueryData
     (taskDetails (fst (useUpdateTask 2000 ''2024-01-02T08:00:00.000Z'' 3000 7 exampleUpdate
                          (Inr exampleServerTask) exampleClient))) 7 = Some exampleServerTask"
    and "getQueryData
       (taskLists (fst (useUpdateTask 2000 ''2024-01-02T08:00:00.000Z'' 3000 7 exampleUpdate
                          (Inr exampleServerTask) exampleClient))) exampleListKey =
     Some (exampleList\<lparr> items := [exampleServerTask] \<rparr>)"
    by (simp_all add: pre it)
  moreover have "updated_at exampleServerTask \<noteq> ''2024-01-02T08:00:00.000Z''"
    by (simp add: exampleServerTask_def)
  ultimately show ?thesis by simp
qed

theorem created_task_in_no_list_counterexample:
  "getQueryData
     (taskLists (fst (useCreateTask 3000 (Inr (exampleServerTask\<lparr> task_id := 9 \<rparr>)) exampleClient)))
     exampleListKey = Some exampleList
   \<and> getQueryData
       (taskLists (fst (useCreateTask 3000 (Inr exampleServerTask) exampleClient)))
       exampleListKey = Some exampleList
   \<and> items exampleList = [exampleTask]
   \<and> task_id exampleTask = 7
   \<and> task_id exampleServerTask = 7
   \<and> exampleTask \<noteq> exampleServerTask"
proof -
  have pre: "getQueryData (taskLists exampleClient) exampleListKey = Some exampleList"
    by (simp add: exampleClient_def exampleClientList_def getQueryData_def)
  have "status exampleTask \<noteq> status exampleServerTask"
    by (simp add: exampleServerTask_def exampleTask_def)
  then have "exampleTask \<noteq> exampleServerTask" by auto
  then show ?thesis
    by (simp add: mutation_succeeded createTask_onSuccess_data pre exampleList_def)
       (simp add: exampleServerTask_def exampleTask_def)
qed

end
